(* ===== verification/Prelude.thy ===== *)
theory Prelude
  imports Main
begin

text \<open>
  Shared vocabulary of the development. The components of the repository are written in
  TypeScript and run in a browser; the few JavaScript built-ins their code relies on are
  modelled here once, with the lemmas that evaluate them:
  \<^item> \<open>js_index_of\<close> is \<^verbatim>\<open>String.prototype.indexOf\<close> for a one-character needle
    (\<open>-1\<close> when absent);
  \<^item> \<open>js_substring\<close> is \<^verbatim>\<open>String.prototype.substring\<close>: both indices are clamped to
    \<open>[0, length]\<close> and swapped when the first is larger;
  \<^item> \<open>js_truthy\<close>, \<open>js_or\<close> and \<open>js_template\<close> are the truthiness test, the
    \<^verbatim>\<open>||\<close> operator and the template-literal rendering of a nullable string
    (\<^verbatim>\<open>localStorage.getItem\<close> and \<^verbatim>\<open>sessionStorage.getItem\<close> return a string or
    \<^verbatim>\<open>null\<close>, modelled as \<open>string option\<close>).
  The collection \<open>js_simps\<close> gathers the rules that compute them on concrete strings.
\<close>

named_theorems js_simps "rules evaluating the JavaScript built-ins of the model"

type_synonym token = string
type_synonym conn = nat
type_synonym timestamp = nat

text \<open>How an awaited promise settles: with a value, or by throwing into the
  enclosing \<^verbatim>\<open>catch\<close>.\<close>

datatype 'a settled = Resolved 'a | Rejected

fun js_index_of :: "char \<Rightarrow> string \<Rightarrow> int" where
  "js_index_of c [] = -1"
| "js_index_of c (x # xs) =
     (if x = c then 0 else (let i = js_index_of c xs in if i < 0 then -1 else i + 1))"

definition js_clamp :: "int \<Rightarrow> nat \<Rightarrow> nat" where
  "js_clamp i n = nat (min (max i 0) (int n))"

definition js_substring :: "string \<Rightarrow> int \<Rightarrow> int \<Rightarrow> string" where
  "js_substring s a b =
     (let i = js_clamp a (length s); j = js_clamp b (length s)
      in take (max i j - min i j) (drop (min i j) s))"

fun js_truthy :: "string option \<Rightarrow> bool" where
  "js_truthy None = False"
| "js_truthy (Some s) = (s \<noteq> [])"

definition js_or :: "string option \<Rightarrow> string \<Rightarrow> string" where
  "js_or x d = (if js_truthy x then the x else d)"

fun js_template :: "string option \<Rightarrow> string" where
  "js_template None = ''null''"
| "js_template (Some s) = s"

subsection \<open>Evaluation of the built-ins\<close>

lemma js_index_of_absent [js_simps]: "c \<notin> set s \<Longrightarrow> js_index_of c s = -1"
  by (induction s) auto

lemma js_index_of_present [js_simps]:
  "c \<in> set s \<Longrightarrow> js_index_of c s = int (length (takeWhile (\<lambda>x. x \<noteq> c) s))"
proof (induction s)
  case Nil
  then show ?case by simp
next
  case (Cons x xs)
  show ?case
  proof (cases "x = c")
    case True
    then show ?thesis by simp
  next
    case False
    with Cons have "js_index_of c xs = int (length (takeWhile (\<lambda>x. x \<noteq> c) xs))" by simp
    with False show ?thesis by (simp add: Let_def)
  qed
qed

lemma js_index_of_bounds: "-1 \<le> js_index_of c s \<and> js_index_of c s < int (length s)"
proof (cases "c \<in> set s")
  case True
  have "length (takeWhile (\<lambda>x. x \<noteq> c) s) < length s"
    using True by (induction s) auto
  with True show ?thesis by (simp add: js_index_of_present)
next
  case False
  then show ?thesis by (simp add: js_index_of_absent)
qed

lemma js_substring_prefix [js_simps]:
  "0 \<le> k \<Longrightarrow> js_substring s 0 k = take (nat k) s"
  by (simp add: js_substring_def js_clamp_def Let_def min_def max_def nat_le_iff)

lemma js_substring_negative [js_simps]:
  "k < 0 \<Longrightarrow> js_substring s 0 k = []"
  by (simp add: js_substring_def js_clamp_def Let_def)

lemma dropWhile_all: "\<forall>x\<in>set xs. P x \<Longrightarrow> dropWhile P xs = []"
  by (simp add: dropWhile_eq_Nil_conv)

lemma takeWhile_neq_upto: "c \<notin> set u \<Longrightarrow> takeWhile (\<lambda>x. x \<noteq> c) (u @ c # d) = u"
  by (induction u) auto

lemma take_length_takeWhile: "take (length (takeWhile P xs)) xs = takeWhile P xs"
  by (induction xs) auto

lemma js_or_truthy [js_simps]: "js_or (Some s) d = (if s = [] then d else s)"
  by (simp add: js_or_def)

lemma js_or_None [js_simps]: "js_or None d = d"
  by (simp add: js_or_def)

end
