(* ===== verification/Theme.thy ===== *)
theory Theme
  imports Prelude
begin

text \<open>
  The light/dark theme of the application shell (\<^verbatim>\<open>src/pages/_app.tsx\<close>) and the
  themed UI primitives that read it (\<^verbatim>\<open>src/components/Themed/\<close>). The shell keeps the
  theme in React state (\<^verbatim>\<open>useState<ITheme | null>\<close>), mirrors it into
  \<^verbatim>\<open>localStorage["Theme"]\<close> by an effect on \<^verbatim>\<open>[theme]\<close>, and loads it once on
  mount from the same key. \<open>theme_state\<close> holds both the React state and the stored
  string; \<open>set_theme\<close> is a state update followed by the commit that runs the
  persisting effect when the value changed (React compares dependencies with
  \<^verbatim>\<open>Object.is\<close>). The type \<^verbatim>\<open>ITheme\<close> and the palettes \<^verbatim>\<open>darkTheme\<close> and
  \<^verbatim>\<open>lightTheme\<close> come from \<^verbatim>\<open>context/ThemeContext\<close>, which is not part of the
  sources: they are modelled from their use.
\<close>

datatype ITheme = Light | Dark

fun theme_str :: "ITheme \<Rightarrow> string" where
  "theme_str Light = ''light''"
| "theme_str Dark = ''dark''"

datatype palette = LightPalette | DarkPalette

record theme_state =
  theme :: "ITheme option"
  stored_theme :: "string option"

definition toggleChangeTheme :: "ITheme option \<Rightarrow> ITheme option" where
  "toggleChangeTheme oldState = Some (if oldState = Some Light then Dark else Light)"

definition persist_theme_effect :: "theme_state \<Rightarrow> theme_state" where
  "persist_theme_effect s =
     (case theme s of None \<Rightarrow> s | Some t \<Rightarrow> s\<lparr>stored_theme := Some (theme_str t)\<rparr>)"

definition parse_local_theme :: "string option \<Rightarrow> ITheme option" where
  "parse_local_theme localTheme =
     (if js_truthy localTheme \<and> the localTheme \<in> set [''dark'', ''light'']
      then Some (if the localTheme = ''dark'' then Dark else Light) else None)"

definition load_theme :: "string option \<Rightarrow> ITheme" where
  "load_theme localTheme =
     (case parse_local_theme localTheme of Some t \<Rightarrow> t | None \<Rightarrow> Light)"

definition set_theme :: "theme_state \<Rightarrow> ITheme option \<Rightarrow> theme_state" where
  "set_theme s t = (if t = theme s then s else persist_theme_effect (s\<lparr>theme := t\<rparr>))"

text \<open>
  Mount: the state starts at \<^verbatim>\<open>null\<close>; the effects run in declaration order, first the
  persisting effect (nothing to store yet), then the loading effect, whose
  \<^verbatim>\<open>setTheme\<close> commits and runs the persisting effect again.
\<close>

definition theme_mount :: "string option \<Rightarrow> theme_state" where
  "theme_mount stored =
     (let s0 = persist_theme_effect \<lparr>theme = None, stored_theme = stored\<rparr>
      in set_theme s0 (Some (load_theme (stored_theme s0))))"

datatype theme_event = ToggleTheme

fun theme_step :: "theme_state \<Rightarrow> theme_event \<Rightarrow> theme_state" where
  "theme_step s ToggleTheme = set_theme s (toggleChangeTheme (theme s))"

fun theme_run :: "theme_state \<Rightarrow> theme_event list \<Rightarrow> theme_state" where
  "theme_run s [] = s"
| "theme_run s (e # es) = theme_run (theme_step s e) es"

datatype variant = Outline | Solid

definition ThemedButton_variant :: "ITheme option \<Rightarrow> variant option \<Rightarrow> variant" where
  "ThemedButton_variant th props_variant =
     (case props_variant of Some v \<Rightarrow> v | None \<Rightarrow> (if th = Some Dark then Outline else Solid))"

definition ThemedIconButton_variant :: "ITheme option \<Rightarrow> variant option \<Rightarrow> variant" where
  "ThemedIconButton_variant th props_variant =
     (case props_variant of Some v \<Rightarrow> v | None \<Rightarrow> (if th = Some Dark then Outline else Solid))"

definition global_styles :: "ITheme option \<Rightarrow> palette option" where
  "global_styles th =
     (case th of None \<Rightarrow> None | Some t \<Rightarrow> Some (if t = Dark then DarkPalette else LightPalette))"

definition theme_synced :: "theme_state \<Rightarrow> bool" where
  "theme_synced s \<longleftrightarrow> theme s \<noteq> None \<and> stored_theme s = map_option theme_str (theme s)"

subsection \<open>Lemmas\<close>

lemma ITheme_not_Light [simp]: "t \<noteq> Light \<longleftrightarrow> t = Dark"
  by (cases t) simp_all

lemma load_theme_str [simp]: "load_theme (Some (theme_str t)) = t"
  by (cases t) (simp_all add: load_theme_def parse_local_theme_def)

lemma set_theme_synced:
  "theme_synced s \<Longrightarrow> t \<noteq> None \<Longrightarrow> theme_synced (set_theme s t)"
  by (auto simp: theme_synced_def set_theme_def persist_theme_effect_def)

lemma theme_mount_theme: "theme (theme_mount stored) = Some (load_theme stored)"
  by (simp add: theme_mount_def set_theme_def persist_theme_effect_def)

lemma toggle_not_None: "toggleChangeTheme t \<noteq> None"
  by (simp add: toggleChangeTheme_def)

lemma theme_step_synced: "theme_synced s \<Longrightarrow> theme_synced (theme_step s e)"
  by (cases e) (simp add: set_theme_synced toggle_not_None)

lemma theme_mount_synced: "theme_synced (theme_mount stored)"
  by (simp add: theme_mount_def theme_synced_def set_theme_def persist_theme_effect_def)

subsection \<open>Properties of the theme\<close>

text \<open>C6 (invariant). From the mount on, whatever local storage held and whatever toggles
  follow, the shell's theme is set and local storage holds exactly its name.\<close>

theorem theme_run_synced: "theme_synced (theme_run (theme_mount stored) es)"
proof -
  have "theme_synced s \<Longrightarrow> theme_synced (theme_run s es)" for s
    by (induction es arbitrary: s) (simp_all add: theme_step_synced)
  then show ?thesis using theme_mount_synced .
qed

text \<open>C7 (roundtrip). Reloading the page restores the theme: mounting on the stored
  value of a synced state gives back its theme.\<close>

theorem theme_reload_roundtrip:
  "theme_synced s \<Longrightarrow> theme (theme_mount (stored_theme s)) = theme s"
  by (auto simp: theme_synced_def theme_mount_theme)

theorem theme_reload_roundtrip_witness:
  "theme (theme_mount (stored_theme (theme_run (theme_mount None) [ToggleTheme])))
     = theme (theme_run (theme_mount None) [ToggleTheme])"
  by (rule theme_reload_roundtrip [OF theme_run_synced])

text \<open>C8 (functional). From a synced state a toggle always changes the theme and the
  value stored in local storage, and toggling twice restores the state, the stored value
  included.\<close>

theorem toggle_flips_theme:
  "theme_synced s \<Longrightarrow>
   theme (theme_step s ToggleTheme) \<noteq> theme s
   \<and> stored_theme (theme_step s ToggleTheme) \<noteq> stored_theme s
   \<and> theme_step (theme_step s ToggleTheme) ToggleTheme = s"
  by (cases s)
     (auto simp: theme_synced_def set_theme_def toggleChangeTheme_def persist_theme_effect_def)

theorem toggle_flips_theme_witness:
  "theme (theme_step (theme_mount (Some ''dark'')) ToggleTheme) \<noteq> theme (theme_mount (Some ''dark''))
   \<and> stored_theme (theme_step (theme_mount (Some ''dark'')) ToggleTheme)
       \<noteq> stored_theme (theme_mount (Some ''dark''))
   \<and> theme_step (theme_step (theme_mount (Some ''dark'')) ToggleTheme) ToggleTheme
       = theme_mount (Some ''dark'')"
  by (rule toggle_flips_theme [OF theme_mount_synced])

text \<open>C9 (error). A stored value that is neither \<^verbatim>\<open>"dark"\<close> nor \<^verbatim>\<open>"light"\<close>
  (absent, empty, or anything else) falls back to the light theme and is overwritten.\<close>

theorem theme_mount_fallback:
  "stored \<noteq> Some ''dark'' \<Longrightarrow> stored \<noteq> Some ''light'' \<Longrightarrow>
   theme (theme_mount stored) = Some Light \<and> stored_theme (theme_mount stored) = Some ''light''"
  by (cases stored)
     (auto simp: theme_mount_def set_theme_def persist_theme_effect_def load_theme_def
           parse_local_theme_def)

theorem theme_mount_fallback_witness:
  "theme (theme_mount (Some ''blue'')) = Some Light
   \<and> stored_theme (theme_mount (Some ''blue'')) = Some ''light''"
  by (rule theme_mount_fallback) simp_all

text \<open>C10 (functional). Themed buttons and the global style agree: a button that is not
  given a variant is outlined exactly when the page uses the dark palette, and a variant
  passed in the props wins over the theme.\<close>

theorem themed_variant_matches_palette:
  "(ThemedButton_variant th None = Outline \<longleftrightarrow> global_styles th = Some DarkPalette)
   \<and> (ThemedIconButton_variant th None = Outline \<longleftrightarrow> global_styles th = Some DarkPalette)
   \<and> ThemedButton_variant th (Some v) = v \<and> ThemedIconButton_variant th (Some v) = v"
  by (cases th)
     (auto simp: ThemedButton_variant_def ThemedIconButton_variant_def global_styles_def)

end
