(* ===== verification/Chat.thy ===== *)
theory Chat
  imports Prelude
begin

text \<open>
  The global chat room, \<^verbatim>\<open>src/components/ChatRoom/ChatRoom.tsx\<close>. Its React state
  (\<^verbatim>\<open>messages\<close>, \<^verbatim>\<open>loading\<close>, \<^verbatim>\<open>scrollView\<close>) and the value of the
  react-hook-form field \<^verbatim>\<open>chat\<close> are the record \<open>chat_state\<close>. Each handler is one
  definition: \<open>onSubmit\<close> (optimistic echo of the typed message and its emission on
  the socket of the context), \<open>handleScrollView\<close>, \<open>receive_message\<close> (the
  \<^verbatim>\<open>receive_message\<close> socket listener) and the two halves of
  \<^verbatim>\<open>fetchGlobalChat\<close> (\<open>fetch_start\<close> before the \<^verbatim>\<open>await\<close>,
  \<open>fetch_complete\<close> when the request settles). \<open>chat_step\<close> dispatches the events;
  the emission is returned beside the new state. \<open>chat_view\<close> is what the component
  renders: a spinner while loading, else one row per message.
\<close>

record Message =
  message :: string
  time :: timestamp
  email :: string
  loading :: bool
  avatar :: string
  name :: string

record scroll_view =
  sv_top :: bool
  sv_bottom :: bool

record chat_state =
  messages :: "Message list"
  room_loading :: bool
  scrollView :: scroll_view
  chat_input :: string

definition chat_init :: chat_state where
  "chat_init =
     \<lparr>messages = [], room_loading = False, scrollView = \<lparr>sv_top = False, sv_bottom = False\<rparr>,
      chat_input = []\<rparr>"

definition optimistic_message :: "string \<Rightarrow> timestamp \<Rightarrow> Message" where
  "optimistic_message chat now =
     \<lparr>message = chat, time = now, email = [], loading = True, avatar = [], name = []\<rparr>"

text \<open>
  \<^verbatim>\<open>handleSubmit\<close> of react-hook-form calls the callback only when the field passes
  \<^verbatim>\<open>{ required: true }\<close>, that is, when it is not the empty string; the callback
  appends the echo, resets the form and emits on the socket if there is one
  (\<^verbatim>\<open>socket?.emit\<close>).
\<close>

definition onSubmit ::
  "conn option \<Rightarrow> timestamp \<Rightarrow> chat_state \<Rightarrow> chat_state \<times> (conn \<times> string) option" where
  "onSubmit socket now s =
     (if chat_input s = [] then (s, None)
      else
        (let data_chat = chat_input s;
             newMessages = messages s @ [optimistic_message data_chat now]
         in (s\<lparr>messages := newMessages, chat_input := []\<rparr>,
             map_option (\<lambda>c. (c, data_chat)) socket)))"

definition handleScrollView :: "int \<Rightarrow> chat_state \<Rightarrow> chat_state" where
  "handleScrollView scrollTop s =
     (let bottomDistance = 90 * (int (length (messages s)) - 10) - scrollTop
      in if bottomDistance < 20 then s\<lparr>scrollView := \<lparr>sv_top = True, sv_bottom = False\<rparr>\<rparr>
         else if scrollTop = 0 then s\<lparr>scrollView := \<lparr>sv_top = False, sv_bottom = True\<rparr>\<rparr>
         else s\<lparr>scrollView := \<lparr>sv_top = True, sv_bottom = True\<rparr>\<rparr>)"

definition unload :: "Message \<Rightarrow> Message" where
  "unload item = item\<lparr>loading := False\<rparr>"

definition receive_message :: "Message list \<Rightarrow> chat_state \<Rightarrow> chat_state" where
  "receive_message data s = s\<lparr>messages := map unload data\<rparr>"

definition fetch_start :: "chat_state \<Rightarrow> chat_state" where
  "fetch_start s = s\<lparr>room_loading := True\<rparr>"

definition fetch_complete :: "Message list settled \<Rightarrow> chat_state \<Rightarrow> chat_state" where
  "fetch_complete r s =
     (case r of
        Resolved data \<Rightarrow> s\<lparr>room_loading := False, messages := map unload data\<rparr>
      | Rejected \<Rightarrow> s)"

datatype chat_event =
    TypeChat string
  | Submit timestamp
  | Scroll int
  | Receive "Message list"
  | FetchStart
  | FetchDone "Message list settled"

text \<open>The scrolled container is rendered only when \<^verbatim>\<open>!loading\<close>, so a scroll event
  reaches \<open>handleScrollView\<close> only then.\<close>

fun chat_step ::
  "conn option \<Rightarrow> chat_state \<Rightarrow> chat_event \<Rightarrow> chat_state \<times> (conn \<times> string) option" where
  "chat_step sock s (TypeChat v) = (s\<lparr>chat_input := v\<rparr>, None)"
| "chat_step sock s (Submit now) = onSubmit sock now s"
| "chat_step sock s (Scroll t) = (if room_loading s then s else handleScrollView t s, None)"
| "chat_step sock s (Receive d) = (receive_message d s, None)"
| "chat_step sock s FetchStart = (fetch_start s, None)"
| "chat_step sock s (FetchDone r) = (fetch_complete r s, None)"

fun chat_run ::
  "conn option \<Rightarrow> chat_state \<Rightarrow> chat_event list \<Rightarrow> chat_state \<times> (conn \<times> string) list" where
  "chat_run sock s [] = (s, [])"
| "chat_run sock s (e # es) =
     (let (s', out) = chat_step sock s e; (s'', outs) = chat_run sock s' es
      in (s'', (case out of None \<Rightarrow> outs | Some x \<Rightarrow> x # outs)))"

subsection \<open>Rendering\<close>

definition display_name :: "string \<Rightarrow> string" where
  "display_name e = js_substring e 0 (js_index_of CHR ''@'' e)"

record row =
  row_spinner :: bool
  row_name :: string
  row_avatar :: string
  row_user :: string
  row_text :: string
  row_time :: timestamp

definition render_message :: "Message \<Rightarrow> row" where
  "render_message m =
     \<lparr>row_spinner = loading m, row_name = name m, row_avatar = avatar m,
      row_user = display_name (email m), row_text = message m, row_time = time m\<rparr>"

datatype chat_view = ChatSpinner | ChatList "row list"

definition chat_view :: "chat_state \<Rightarrow> chat_view" where
  "chat_view s = (if room_loading s then ChatSpinner else ChatList (map render_message (messages s)))"

text \<open>The events that carry a list from the server: the socket broadcast and the
  settled initial fetch.\<close>

fun server_list :: "chat_event \<Rightarrow> Message list option" where
  "server_list (Receive d) = Some d"
| "server_list (FetchDone (Resolved d)) = Some d"
| "server_list _ = None"

text \<open>The row an optimistic message renders to, as the user sees it: a spinner, no
  sender, the typed text.\<close>

definition pending_row :: "string \<Rightarrow> timestamp \<Rightarrow> row" where
  "pending_row v now =
     \<lparr>row_spinner = True, row_name = [], row_avatar = [], row_user = [], row_text = v,
      row_time = now\<rparr>"

subsection \<open>Abstract specification\<close>

text \<open>
  What the room promises, apart from rendering: the messages the server confirmed
  (sender, text, time, in the server's order) and the texts the user sent that no server
  list has replaced yet. Sending adds a pending text; a server list, broadcast or
  fetched, becomes the confirmed list and drops every pending text.
\<close>

record chat_spec =
  confirmed :: "(string \<times> string \<times> timestamp) list"
  pending :: "string list"

definition msg_content :: "Message \<Rightarrow> string \<times> string \<times> timestamp" where
  "msg_content m = (email m, message m, time m)"

definition abstract_chat :: "chat_state \<Rightarrow> chat_spec" where
  "abstract_chat s =
     \<lparr>confirmed = map msg_content (filter (\<lambda>m. \<not> loading m) (messages s)),
      pending = map message (filter loading (messages s))\<rparr>"

fun spec_step :: "string \<Rightarrow> chat_spec \<Rightarrow> chat_event \<Rightarrow> chat_spec" where
  "spec_step input a (Submit now) = (if input = [] then a else a\<lparr>pending := pending a @ [input]\<rparr>)"
| "spec_step input a (Receive d) = \<lparr>confirmed = map msg_content d, pending = []\<rparr>"
| "spec_step input a (FetchDone (Resolved d)) = \<lparr>confirmed = map msg_content d, pending = []\<rparr>"
| "spec_step input a (FetchDone Rejected) = a"
| "spec_step input a (TypeChat v) = a"
| "spec_step input a (Scroll t) = a"
| "spec_step input a FetchStart = a"

subsection \<open>Invariant\<close>

text \<open>
  The messages still waiting for the server's echo are the optimistic ones: they form a
  suffix of the list and carry no sender.
\<close>

definition pending_suffix :: "Message list \<Rightarrow> bool" where
  "pending_suffix ms \<longleftrightarrow> list_all loading (dropWhile (\<lambda>m. \<not> loading m) ms)"

definition chat_inv :: "chat_state \<Rightarrow> bool" where
  "chat_inv s \<longleftrightarrow>
     pending_suffix (messages s) \<and> list_all (\<lambda>m. loading m \<longrightarrow> email m = []) (messages s)"

subsection \<open>Lemmas\<close>

lemma display_name_eq [simp]:
  "display_name e = (if CHR ''@'' \<in> set e then takeWhile (\<lambda>x. x \<noteq> CHR ''@'') e else [])"
  by (simp add: display_name_def js_simps take_length_takeWhile)

lemma unload_loading [simp]: "loading (unload m) = False"
  by (simp add: unload_def)

lemma unload_fields [simp]:
  "message (unload m) = message m" "time (unload m) = time m" "email (unload m) = email m"
  "avatar (unload m) = avatar m" "name (unload m) = name m"
  by (simp_all add: unload_def)

lemma pending_suffix_iff:
  "pending_suffix ms \<longleftrightarrow>
     (\<exists>ds ps. ms = ds @ ps \<and> list_all (\<lambda>m. \<not> loading m) ds \<and> list_all loading ps)"
proof
  assume "pending_suffix ms"
  then show "\<exists>ds ps. ms = ds @ ps \<and> list_all (\<lambda>m. \<not> loading m) ds \<and> list_all loading ps"
    unfolding pending_suffix_def
    by (metis (no_types, lifting) Ball_set takeWhile_dropWhile_id set_takeWhileD)
next
  assume "\<exists>ds ps. ms = ds @ ps \<and> list_all (\<lambda>m. \<not> loading m) ds \<and> list_all loading ps"
  then obtain ds ps where "ms = ds @ ps" "list_all (\<lambda>m. \<not> loading m) ds" "list_all loading ps"
    by blast
  then show "pending_suffix ms"
    unfolding pending_suffix_def
    by (cases ps) (auto simp: list_all_iff dropWhile_append2 dropWhile_all)
qed

lemma pending_suffix_snoc:
  "pending_suffix ms \<Longrightarrow> loading m \<Longrightarrow> pending_suffix (ms @ [m])"
proof -
  assume "pending_suffix ms" and m: "loading m"
  then obtain ds ps where "ms = ds @ ps" "list_all (\<lambda>m. \<not> loading m) ds" "list_all loading ps"
    unfolding pending_suffix_iff by blast
  with m have "ms @ [m] = ds @ (ps @ [m]) \<and> list_all (\<lambda>m. \<not> loading m) ds
                 \<and> list_all loading (ps @ [m])"
    by simp
  then show ?thesis unfolding pending_suffix_iff by blast
qed

lemma pending_suffix_unloaded: "pending_suffix (map unload ds)"
  unfolding pending_suffix_def by (induction ds) auto

lemma abstract_chat_unloaded:
  "abstract_chat (s\<lparr>messages := map unload d\<rparr>) = \<lparr>confirmed = map msg_content d, pending = []\<rparr>"
proof -
  have "filter (\<lambda>m. \<not> loading m) (map unload d) = map unload d" by (induction d) auto
  moreover have "filter loading (map unload d) = []" by (induction d) auto
  moreover have "msg_content (unload m) = msg_content m" for m by (simp add: msg_content_def)
  ultimately show ?thesis by (simp add: abstract_chat_def)
qed

lemmas chat_handler_defs =
  onSubmit_def handleScrollView_def receive_message_def fetch_start_def fetch_complete_def

lemma handleScrollView_frame [simp]:
  "messages (handleScrollView t s) = messages s"
  "room_loading (handleScrollView t s) = room_loading s"
  "chat_input (handleScrollView t s) = chat_input s"
  by (simp_all add: handleScrollView_def Let_def)

lemma optimistic_message_fields [simp]:
  "message (optimistic_message v now) = v" "time (optimistic_message v now) = now"
  "email (optimistic_message v now) = []" "loading (optimistic_message v now) = True"
  "avatar (optimistic_message v now) = []" "name (optimistic_message v now) = []"
  by (simp_all add: optimistic_message_def)

lemma onSubmit_cases:
  "onSubmit sock now s =
     (if chat_input s = [] then (s, None)
      else (s\<lparr>messages := messages s @ [optimistic_message (chat_input s) now], chat_input := []\<rparr>,
            map_option (\<lambda>c. (c, chat_input s)) sock))"
  by (simp add: onSubmit_def Let_def)

lemma chat_run_Cons_fst:
  "fst (chat_run sock s (e # es)) = fst (chat_run sock (fst (chat_step sock s e)) es)"
  by (simp split: prod.splits)

lemma chat_run_append:
  "fst (chat_run sock s (xs @ ys)) = fst (chat_run sock (fst (chat_run sock s xs)) ys)"
  by (induction xs arbitrary: s) (simp_all del: chat_run.simps(2) add: chat_run_Cons_fst)

lemma chat_step_inv:
  "chat_inv s \<Longrightarrow> chat_inv (fst (chat_step sock s e))"
proof (cases e)
  case (Submit now)
  assume inv: "chat_inv s"
  then show ?thesis using Submit
    by (auto simp: onSubmit_cases chat_inv_def pending_suffix_snoc)
next
  case (Receive d)
  then show ?thesis
    by (simp add: receive_message_def chat_inv_def pending_suffix_unloaded list_all_iff)
next
  case (FetchDone r)
  assume "chat_inv s"
  with FetchDone show ?thesis
    by (cases r) (simp_all add: fetch_complete_def chat_inv_def pending_suffix_unloaded list_all_iff)
qed (simp_all add: chat_inv_def fetch_start_def)

lemma chat_step_keeps_loading:
  "room_loading s \<Longrightarrow> server_list e = None \<Longrightarrow> room_loading (fst (chat_step sock s e))"
  by (cases e rule: server_list.cases)
     (simp_all add: onSubmit_cases fetch_start_def fetch_complete_def)

lemma chat_step_no_list:
  assumes none: "server_list e = None"
  shows "\<exists>ps. messages (fst (chat_step sock s e)) = messages s @ ps \<and> list_all loading ps"
proof (cases e)
  case (Submit now)
  then show ?thesis
    by (cases "chat_input s = []") (auto simp: onSubmit_cases intro: exI [of _ "[]"])
next
  case (FetchDone r)
  with none show ?thesis by (cases r) (auto simp: fetch_complete_def)
qed (use none in \<open>auto simp: fetch_start_def\<close>)

lemma chat_step_list:
  "server_list e = Some d \<Longrightarrow> messages (fst (chat_step sock s e)) = map unload d"
  by (cases e rule: server_list.cases) (simp_all add: receive_message_def fetch_complete_def)

lemma chat_run_no_lists:
  "list_all (\<lambda>e. server_list e = None) es \<Longrightarrow>
   \<exists>ps. messages (fst (chat_run sock s es)) = messages s @ ps \<and> list_all loading ps"
proof (induction es arbitrary: s)
  case Nil
  then show ?case by simp
next
  case (Cons e es)
  then have "server_list e = None" by simp
  then obtain qs where qs: "messages (fst (chat_step sock s e)) = messages s @ qs" "list_all loading qs"
    using chat_step_no_list by blast
  from Cons obtain ps where
    "messages (fst (chat_run sock (fst (chat_step sock s e)) es))
       = messages (fst (chat_step sock s e)) @ ps" "list_all loading ps"
    by auto
  with qs show ?case by (simp only: chat_run_Cons_fst) (metis append.assoc list_all_append)
qed

subsection \<open>Properties of the chat room\<close>

text \<open>C1 (invariant). Every run of chat-room events keeps the invariant: the messages
  awaiting the server's echo form a suffix of the list and all carry an empty sender.\<close>

theorem chat_run_preserves_inv:
  "chat_inv s \<Longrightarrow> chat_inv (fst (chat_run sock s es))"
proof (induction es arbitrary: s)
  case Nil
  then show ?case by simp
next
  case (Cons e es)
  from Cons.prems have "chat_inv (fst (chat_step sock s e))" by (rule chat_step_inv)
  then have "chat_inv (fst (chat_run sock (fst (chat_step sock s e)) es))" by (rule Cons.IH)
  then show ?case by (simp only: chat_run_Cons_fst)
qed

lemma chat_init_inv: "chat_inv chat_init"
  by (simp add: chat_inv_def chat_init_def pending_suffix_def)

theorem chat_run_preserves_inv_witness:
  "chat_inv chat_init \<and>
   chat_inv (fst (chat_run (Some 0) chat_init [FetchStart, TypeChat ''hi'', Submit 7, Scroll 3]))"
  using chat_init_inv chat_run_preserves_inv [OF chat_init_inv] by blast

text \<open>C2 (refinement). Submitting a non-empty message, seen through the rendered view:
  the list gains exactly one row at its end, a pending row with the typed text and no
  sender, and the text is emitted on the context's socket when there is one.\<close>

theorem chat_view_onSubmit:
  assumes "\<not> room_loading s" and "chat_input s \<noteq> []" and "chat_view s = ChatList rows"
  shows "chat_view (fst (onSubmit sock now s)) = ChatList (rows @ [pending_row (chat_input s) now])
         \<and> snd (onSubmit sock now s) = map_option (\<lambda>c. (c, chat_input s)) sock"
  using assms
  by (simp add: onSubmit_cases chat_view_def render_message_def pending_row_def)

theorem chat_view_onSubmit_witness:
  "chat_view (fst (onSubmit (Some 1) 5 (chat_init\<lparr>chat_input := ''hi''\<rparr>)))
     = ChatList [pending_row ''hi'' 5]
   \<and> snd (onSubmit (Some 1) 5 (chat_init\<lparr>chat_input := ''hi''\<rparr>)) = Some (1, ''hi'')"
proof -
  have "chat_view (chat_init\<lparr>chat_input := ''hi''\<rparr>) = ChatList []"
    by (simp add: chat_view_def chat_init_def)
  from chat_view_onSubmit [where sock = "Some 1" and now = 5, OF _ _ this]
  show ?thesis by (simp add: chat_init_def)
qed

text \<open>C3 (error). The \<^verbatim>\<open>required\<close> rule of the form: submitting is a no-op, with no
  emission, exactly when the chat field is empty.\<close>

theorem onSubmit_noop_iff_empty:
  "onSubmit sock now s = (s, None) \<longleftrightarrow> chat_input s = []"
proof
  assume eq: "onSubmit sock now s = (s, None)"
  show "chat_input s = []"
  proof (rule ccontr)
    assume "chat_input s \<noteq> []"
    then have "length (messages (fst (onSubmit sock now s))) = Suc (length (messages s))"
      by (simp add: onSubmit_cases)
    with eq show False by simp
  qed
next
  assume "chat_input s = []"
  then show "onSubmit sock now s = (s, None)" by (simp add: onSubmit_cases)
qed

text \<open>C4 (functional). A \<^verbatim>\<open>receive_message\<close> broadcast replaces the whole list: the
  view shows the server's messages in the server's order, none of them pending, and
  every optimistic echo is gone.\<close>

theorem receive_message_view:
  "chat_view (receive_message d s) =
     (if room_loading s then ChatSpinner
      else ChatList (map (\<lambda>m. (render_message m)\<lparr>row_spinner := False\<rparr>) d))
   \<and> \<not> list_ex loading (messages (receive_message d s))"
  by (simp add: chat_view_def receive_message_def render_message_def list_ex_iff)

text \<open>C5 (safety, finding). When the initial \<^verbatim>\<open>GET /chat\<close> fails (network error, or
  a body that is not an array, as a 401 reply for a guest), the \<^verbatim>\<open>catch\<close> leaves
  \<^verbatim>\<open>loading\<close> true: the room shows its spinner for ever, whatever else happens
  (typing, sending, socket broadcasts) until a fetch succeeds.\<close>

theorem fetch_rejected_spinner_forever:
  "room_loading s \<Longrightarrow> list_all (\<lambda>e. server_list e = None \<or> (\<exists>d. e = Receive d)) es \<Longrightarrow>
   chat_view (fst (chat_run sock (fetch_complete Rejected s) es)) = ChatSpinner"
proof (induction es arbitrary: s)
  case Nil
  then show ?case by (simp add: chat_view_def fetch_complete_def)
next
  case (Cons e es)
  have "room_loading (fst (chat_step sock s e))"
  proof (cases "server_list e = None")
    case True
    with Cons.prems(1) show ?thesis by (rule chat_step_keeps_loading)
  next
    case False
    with Cons.prems(2) obtain d where "e = Receive d" by auto
    with Cons.prems(1) show ?thesis by (simp add: receive_message_def)
  qed
  then have "chat_view (fst (chat_run sock (fetch_complete Rejected (fst (chat_step sock s e))) es))
               = ChatSpinner"
    using Cons.prems(2) by (intro Cons.IH) simp_all
  moreover have "fetch_complete Rejected s = s" "fetch_complete Rejected (fst (chat_step sock s e))
                   = fst (chat_step sock s e)"
    by (simp_all add: fetch_complete_def)
  ultimately show ?case by (simp only: chat_run_Cons_fst)
qed

theorem fetch_rejected_spinner_forever_witness:
  "chat_view (fst (chat_run (Some 2) (fetch_complete Rejected (fetch_start chat_init))
      [TypeChat ''hello'', Submit 1, Receive [], Scroll 40])) = ChatSpinner"
  by (rule fetch_rejected_spinner_forever) (simp_all add: fetch_start_def chat_init_def)

text \<open>C23 (bounds). The scroll affordances after a scroll event: the scroll-to-bottom
  button is shown exactly when the estimated distance to the bottom, 90 pixels per message
  beyond the tenth less the offset, is at least 20; the scroll-to-top button exactly when
  the list is not at its top or is near its bottom; at least one of them is shown.\<close>

theorem handleScrollView_buttons:
  "(sv_bottom (scrollView (handleScrollView t s))
      \<longleftrightarrow> 20 \<le> 90 * (int (length (messages s)) - 10) - t)
   \<and> (sv_top (scrollView (handleScrollView t s))
      \<longleftrightarrow> t \<noteq> 0 \<or> 90 * (int (length (messages s)) - 10) - t < 20)
   \<and> (sv_top (scrollView (handleScrollView t s)) \<or> sv_bottom (scrollView (handleScrollView t s)))"
  by (simp add: handleScrollView_def Let_def)

theorem handleScrollView_buttons_witness:
  "sv_top (scrollView (handleScrollView 0 (chat_init\<lparr>messages := replicate 12 (optimistic_message ''x'' 0)\<rparr>)))
     = False
   \<and> sv_bottom (scrollView (handleScrollView 0 (chat_init\<lparr>messages := replicate 12 (optimistic_message ''x'' 0)\<rparr>)))"
  using handleScrollView_buttons [of 0 "chat_init\<lparr>messages := replicate 12 (optimistic_message ''x'' 0)\<rparr>"]
  by simp

text \<open>C24 (roundtrip). The name shown above a message is the local part of the sender's
  address: for \<open>u @ ''@'' @ d\<close> with no \<open>@\<close> in \<open>u\<close> it is \<open>u\<close>; without any
  \<open>@\<close> (the optimistic echo has an empty sender) \<^verbatim>\<open>indexOf\<close> is -1 and
  \<^verbatim>\<open>substring(0, -1)\<close> is empty.\<close>

theorem display_name_local_part:
  "CHR ''@'' \<notin> set u \<Longrightarrow>
   display_name (u @ CHR ''@'' # d) = u \<and> display_name u = []"
  by (simp add: takeWhile_neq_upto)

theorem display_name_local_part_witness:
  "display_name ''ann@example.org'' = ''ann'' \<and> display_name ''ann'' = []"
proof -
  have "CHR ''@'' \<notin> set ''ann''" by simp
  from display_name_local_part [OF this, of "''example.org''"] show ?thesis by simp
qed

text \<open>C25 (safety, ordering). The list shown reflects the last server list to
  \<^emph>\<open>arrive\<close>, not the newest one: after a broadcast or a settled fetch, and any
  later events that carry no list, the messages are that list followed only by the user's
  own pending echoes. A slow initial fetch that settles after a broadcast therefore
  replaces the newer broadcast.\<close>

theorem chat_run_last_list_wins:
  assumes "server_list e = Some d" and "list_all (\<lambda>x. server_list x = None) ts"
  shows "\<exists>ps. messages (fst (chat_run sock s (es @ e # ts))) = map unload d @ ps \<and> list_all loading ps"
proof -
  let ?s1 = "fst (chat_step sock (fst (chat_run sock s es)) e)"
  have "fst (chat_run sock s (es @ e # ts)) = fst (chat_run sock ?s1 ts)"
    by (simp only: chat_run_append chat_run_Cons_fst)
  moreover have "messages ?s1 = map unload d" using assms(1) by (rule chat_step_list)
  moreover obtain ps where "messages (fst (chat_run sock ?s1 ts)) = messages ?s1 @ ps"
      "list_all loading ps"
    using chat_run_no_lists [OF assms(2)] by blast
  ultimately show ?thesis by auto
qed

theorem chat_run_last_list_wins_witness:
  "messages (fst (chat_run (Some 0) chat_init
      [FetchStart, Receive [\<lparr>message = ''new'', time = 2, email = ''b@x'', loading = False, avatar = [], name = []\<rparr>],
       FetchDone (Resolved [\<lparr>message = ''old'', time = 1, email = ''a@x'', loading = False, avatar = [], name = []\<rparr>])]))
   = map unload [\<lparr>message = ''old'', time = 1, email = ''a@x'', loading = False, avatar = [], name = []\<rparr>]"
proof -
  have "\<exists>ps. messages (fst (chat_run (Some 0) chat_init
      ([FetchStart, Receive [\<lparr>message = ''new'', time = 2, email = ''b@x'', loading = False, avatar = [], name = []\<rparr>]]
       @ FetchDone (Resolved [\<lparr>message = ''old'', time = 1, email = ''a@x'', loading = False, avatar = [], name = []\<rparr>]) # [])))
      = map unload [\<lparr>message = ''old'', time = 1, email = ''a@x'', loading = False, avatar = [], name = []\<rparr>] @ ps
      \<and> list_all loading ps"
    by (rule chat_run_last_list_wins) simp_all
  then show ?thesis by (simp add: chat_init_def fetch_start_def receive_message_def fetch_complete_def)
qed

text \<open>C26 (refinement). Between two server lists, the optimistic echoes and the socket
  emissions correspond one to one and in order: on a connected socket every echo
  appended to the list is emitted with its text, and without a socket (a guest) the
  echoes are appended but nothing is emitted.\<close>

theorem echoes_match_emissions:
  assumes "list_all (\<lambda>x. server_list x = None) es"
  shows "\<exists>ps. messages (fst (chat_run sock s es)) = messages s @ ps \<and> list_all loading ps
           \<and> snd (chat_run sock s es)
               = (case sock of None \<Rightarrow> [] | Some c \<Rightarrow> map (\<lambda>m. (c, message m)) ps)"
  using assms
proof (induction es arbitrary: s)
  case Nil
  then show ?case by (auto split: option.splits)
next
  case (Cons e es)
  let ?s1 = "fst (chat_step sock s e)"
  from Cons.prems have none: "server_list e = None" and rest: "list_all (\<lambda>e. server_list e = None) es"
    by simp_all
  from Cons.IH [OF rest] obtain ps where
    ps: "messages (fst (chat_run sock ?s1 es)) = messages ?s1 @ ps" "list_all loading ps"
        "snd (chat_run sock ?s1 es) = (case sock of None \<Rightarrow> [] | Some c \<Rightarrow> map (\<lambda>m. (c, message m)) ps)"
    by blast
  obtain qs where qs: "messages ?s1 = messages s @ qs" "list_all loading qs"
      "snd (chat_step sock s e) = (case sock of None \<Rightarrow> None | Some c \<Rightarrow> map_option (\<lambda>m. (c, message m)) (if qs = [] then None else Some (hd qs)))"
      "length qs \<le> 1"
  proof (cases e)
    case (Submit now)
    show ?thesis
    proof (cases "chat_input s = []")
      case True
      with Submit show ?thesis by (intro that [of "[]"]) (simp_all add: onSubmit_cases split: option.splits)
    next
      case False
      with Submit show ?thesis
        by (intro that [of "[optimistic_message (chat_input s) now]"])
           (simp_all add: onSubmit_cases split: option.splits)
    qed
  next
    case (FetchDone r)
    with none show ?thesis
      by (intro that [of "[]"]) (cases r; simp add: fetch_complete_def split: option.splits)+
  qed (use none in \<open>auto intro: that [of "[]"] simp: fetch_start_def split: option.splits\<close>)
  have "messages (fst (chat_run sock s (e # es))) = messages s @ (qs @ ps)"
    using ps(1) qs(1) by (simp only: chat_run_Cons_fst append_assoc)
  moreover have "list_all loading (qs @ ps)" using ps(2) qs(2) by simp
  moreover have "snd (chat_run sock s (e # es))
                   = (case sock of None \<Rightarrow> [] | Some c \<Rightarrow> map (\<lambda>m. (c, message m)) (qs @ ps))"
    using ps(3) qs(3) qs(4)
    by (cases qs) (auto split: prod.splits option.splits)
  ultimately show ?case by blast
qed

theorem echoes_match_emissions_witness:
  "\<exists>ps. messages (fst (chat_run (Some 4) chat_init [TypeChat ''hi'', Submit 3])) = messages chat_init @ ps
        \<and> list_all loading ps
        \<and> snd (chat_run (Some 4) chat_init [TypeChat ''hi'', Submit 3]) = map (\<lambda>m. (4, message m)) ps"
  using echoes_match_emissions [where es = "[TypeChat ''hi'', Submit 3]" and sock = "Some 4" and s = chat_init]
  by simp

text \<open>C31 (refinement). The chat room implements its abstract specification: every
  event changes the abstraction of the state (confirmed messages, pending texts) exactly
  as the specification's step does.\<close>

theorem chat_step_refines_spec:
  "abstract_chat (fst (chat_step sock s e)) = spec_step (chat_input s) (abstract_chat s) e"
proof (cases e)
  case (Submit now)
  then show ?thesis by (simp add: onSubmit_cases abstract_chat_def)
next
  case (Receive d)
  then show ?thesis by (simp add: receive_message_def abstract_chat_unloaded)
next
  case (FetchDone r)
  then show ?thesis by (cases r) (simp_all add: fetch_complete_def abstract_chat_unloaded)
qed (simp_all add: abstract_chat_def fetch_start_def)

end
