(* ===== verification/Session.thy ===== *)
theory Session
  imports Prelude
begin

text \<open>
  Authentication and the real-time connection of the application shell,
  \<^verbatim>\<open>src/pages/_app.tsx\<close> (\<^verbatim>\<open>MyApp\<close>). The record \<open>session_state\<close> holds the
  React state \<^verbatim>\<open>authentication\<close> and \<^verbatim>\<open>socket\<close>, the browser's
  \<^verbatim>\<open>sessionStorage["Authentication"]\<close>, the router's \<^verbatim>\<open>query.token\<close>, the
  \<^verbatim>\<open>authenticate\<close> calls whose \<^verbatim>\<open>GET /user/login\<close> has not settled yet (by the
  token they sent, in issue order), the cleanup the socket effect registered, and the
  sockets that are open.

  The two effects are \<open>auth_effect\<close> (deps \<^verbatim>\<open>[URL, token]\<close>) and \<open>socket_effect\<close>
  (deps \<^verbatim>\<open>[authentication]\<close>, running the previous cleanup first); \<open>commit\<close> runs
  the effects whose dependencies changed between two states, as React does after a
  render. \<open>authenticate_reply\<close> is the continuation of \<^verbatim>\<open>authenticate\<close> after
  its \<^verbatim>\<open>await\<close>s; \<open>deliver\<close> settles the \<open>i\<close>-th outstanding request with a reply
  of the server, in any order: the interleaving of replies is the input of the model.
\<close>

datatype auth = User | Guest

text \<open>How \<^verbatim>\<open>GET /user/login\<close> settles: \<^verbatim>\<open>fetch\<close> rejects (no
  \<^verbatim>\<open>router.replace\<close>), or it resolves and \<^verbatim>\<open>response.json()\<close> rejects, or the
  body's \<^verbatim>\<open>statusCode\<close> field is read (\<open>None\<close> when absent).\<close>

datatype login_reply = FetchFailed | JsonFailed | StatusCode "int option"

record session_state =
  authentication :: auth
  session_auth :: "token option"
  query_token :: "token option"
  inflight :: "token list"
  socket :: "conn option"
  socket_cleanup :: "conn option"
  open_conns :: "conn list"
  next_conn :: conn
  socket_log :: "(conn \<times> string) list"

definition remove_nth :: "nat \<Rightarrow> 'a list \<Rightarrow> 'a list" where
  "remove_nth i xs = take i xs @ drop (Suc i) xs"

definition authenticate_call :: "token \<Rightarrow> session_state \<Rightarrow> session_state" where
  "authenticate_call receivedToken s = s\<lparr>inflight := inflight s @ [receivedToken]\<rparr>"

definition auth_effect :: "session_state \<Rightarrow> session_state" where
  "auth_effect s =
     (let s1 = (if js_truthy (session_auth s) then authenticate_call (the (session_auth s)) s else s)
      in if js_truthy (query_token s) then authenticate_call (the (query_token s)) s1 else s1)"

definition router_replace :: "session_state \<Rightarrow> session_state" where
  "router_replace s = s\<lparr>query_token := None\<rparr>"

definition authenticate_reply :: "token \<Rightarrow> login_reply \<Rightarrow> session_state \<Rightarrow> session_state" where
  "authenticate_reply receivedToken r s =
     (case r of
        FetchFailed \<Rightarrow> s\<lparr>authentication := Guest\<rparr>
      | JsonFailed \<Rightarrow> (router_replace s)\<lparr>authentication := Guest\<rparr>
      | StatusCode statusCode \<Rightarrow>
          (if statusCode = Some 401
           then (router_replace s)\<lparr>authentication := Guest, session_auth := None\<rparr>
           else (router_replace s)\<lparr>session_auth := Some receivedToken, authentication := User\<rparr>))"

definition socket_effect :: "session_state \<Rightarrow> session_state" where
  "socket_effect s =
     (let s1 = (case socket_cleanup s of
                  None \<Rightarrow> s
                | Some c \<Rightarrow> s\<lparr>open_conns := removeAll c (open_conns s), socket_cleanup := None\<rparr>)
      in if authentication s1 = User
         then (let c = next_conn s1
               in s1\<lparr>socket := Some c, open_conns := open_conns s1 @ [c], next_conn := Suc c,
                     socket_cleanup := Some c,
                     socket_log := socket_log s1 @ [(c, js_template (session_auth s1))]\<rparr>)
         else s1)"

definition commit :: "session_state \<Rightarrow> session_state \<Rightarrow> session_state" where
  "commit old s =
     (let s1 = (if query_token s \<noteq> query_token old then auth_effect s else s)
      in if authentication s \<noteq> authentication old then socket_effect s1 else s1)"

definition session_mount :: "token option \<Rightarrow> session_state" where
  "session_mount stored =
     socket_effect (auth_effect
       \<lparr>authentication = Guest, session_auth = stored, query_token = None, inflight = [],
        socket = None, socket_cleanup = None, open_conns = [], next_conn = 0, socket_log = []\<rparr>)"

definition deliver :: "nat \<Rightarrow> login_reply \<Rightarrow> session_state \<Rightarrow> session_state" where
  "deliver i r s =
     (if i < length (inflight s)
      then (let s0 = s\<lparr>inflight := remove_nth i (inflight s)\<rparr>
            in commit s0 (authenticate_reply (inflight s ! i) r s0))
      else s)"

text \<open>Events: the router's query changes (Next.js fills \<^verbatim>\<open>router.query\<close> after
  hydration, so a token in the URL arrives as such a change), or an outstanding login
  request settles.\<close>

datatype session_event = RouteQuery "token option" | Reply nat login_reply

fun session_step :: "session_state \<Rightarrow> session_event \<Rightarrow> session_state" where
  "session_step s (RouteQuery q) = commit s (s\<lparr>query_token := q\<rparr>)"
| "session_step s (Reply i r) = deliver i r s"

fun session_run :: "session_state \<Rightarrow> session_event list \<Rightarrow> session_state" where
  "session_run s [] = s"
| "session_run s (e # es) = session_run (session_step s e) es"

text \<open>
  The server's side, abstracted: a verdict on tokens, answered as \<^verbatim>\<open>statusCode\<close>
  200 or 401. \<open>deliver_server v i\<close> settles the \<open>i\<close>-th outstanding request with
  the server's answer to the token it carries; \<open>run_schedule\<close> settles requests in
  the order a schedule of indices gives.
\<close>

definition server_reply :: "(token \<Rightarrow> bool) \<Rightarrow> token \<Rightarrow> login_reply" where
  "server_reply valid t = StatusCode (Some (if valid t then 200 else 401))"

definition deliver_server :: "(token \<Rightarrow> bool) \<Rightarrow> nat \<Rightarrow> session_state \<Rightarrow> session_state" where
  "deliver_server valid i s =
     (if i < length (inflight s) then deliver i (server_reply valid (inflight s ! i)) s else s)"

fun run_schedule :: "(token \<Rightarrow> bool) \<Rightarrow> session_state \<Rightarrow> nat list \<Rightarrow> session_state" where
  "run_schedule valid s [] = s"
| "run_schedule valid s (i # is) = run_schedule valid (deliver_server valid i s) is"

text \<open>What the cascade of requests can still cost: the outstanding requests, plus one
  while a query token is present (its removal by \<^verbatim>\<open>router.replace\<close> re-runs the
  effect once more).\<close>

definition potential :: "session_state \<Rightarrow> nat" where
  "potential s = length (inflight s) + (if query_token s = None then 0 else 1)"

definition conns_of :: "conn option \<Rightarrow> conn list" where
  "conns_of c = (case c of None \<Rightarrow> [] | Some x \<Rightarrow> [x])"

definition socket_inv :: "session_state \<Rightarrow> bool" where
  "socket_inv s \<longleftrightarrow>
     open_conns s = conns_of (socket_cleanup s)
     \<and> (socket_cleanup s \<noteq> None \<longleftrightarrow> authentication s = User)
     \<and> (socket_cleanup s = None \<or> socket_cleanup s = socket s)"

text \<open>
  The states reachable against a server with a fixed verdict on tokens: from any mount,
  the router may change the query, any outstanding request may receive the server's
  answer, and any outstanding request may fail on the network or with an unreadable
  body.
\<close>

inductive srv_reachable :: "(token \<Rightarrow> bool) \<Rightarrow> session_state \<Rightarrow> bool" for valid where
  mount: "srv_reachable valid (session_mount stored)"
| route: "srv_reachable valid s \<Longrightarrow> srv_reachable valid (session_step s (RouteQuery q))"
| answer: "srv_reachable valid s \<Longrightarrow> srv_reachable valid (deliver_server valid i s)"
| failure: "srv_reachable valid s \<Longrightarrow> r = FetchFailed \<or> r = JsonFailed \<Longrightarrow>
     srv_reachable valid (deliver i r s)"

definition srv_inv :: "(token \<Rightarrow> bool) \<Rightarrow> session_state \<Rightarrow> bool" where
  "srv_inv valid s \<longleftrightarrow>
     list_all (\<lambda>(c, a). valid a) (socket_log s)
     \<and> (authentication s = User \<longrightarrow> (\<exists>t. session_auth s = Some t \<and> valid t))"

text \<open>A schedule of replies is feasible when each index names an outstanding request
  at the time it is delivered.\<close>

fun sched_ok :: "(token \<Rightarrow> bool) \<Rightarrow> session_state \<Rightarrow> nat list \<Rightarrow> bool" where
  "sched_ok valid s [] = True"
| "sched_ok valid s (i # is) =
     (i < length (inflight s) \<and> sched_ok valid (deliver_server valid i s) is)"

subsection \<open>Lemmas\<close>

named_theorems session_frame "fields an operation of the session leaves alone"

lemma auth_effect_frame [session_frame]:
  "authentication (auth_effect s) = authentication s" "session_auth (auth_effect s) = session_auth s"
  "query_token (auth_effect s) = query_token s" "socket (auth_effect s) = socket s"
  "socket_cleanup (auth_effect s) = socket_cleanup s" "open_conns (auth_effect s) = open_conns s"
  by (simp_all add: auth_effect_def authenticate_call_def Let_def)

lemma socket_effect_frame [session_frame]:
  "authentication (socket_effect s) = authentication s"
  "session_auth (socket_effect s) = session_auth s"
  "query_token (socket_effect s) = query_token s" "inflight (socket_effect s) = inflight s"
  by (simp_all add: socket_effect_def Let_def split: option.splits)

lemma authenticate_reply_frame [session_frame]:
  "inflight (authenticate_reply t r s) = inflight s" "socket (authenticate_reply t r s) = socket s"
  "socket_cleanup (authenticate_reply t r s) = socket_cleanup s"
  "open_conns (authenticate_reply t r s) = open_conns s"
  by (simp_all add: authenticate_reply_def router_replace_def split: login_reply.splits)

lemma authenticate_reply_query:
  "query_token (authenticate_reply t r s) = (if r = FetchFailed then query_token s else None)"
  by (simp add: authenticate_reply_def router_replace_def split: login_reply.splits)

lemma auth_effect_inflight_length:
  "length (inflight (auth_effect s)) \<le> length (inflight s) + 1 + (if query_token s = None then 0 else 1)"
  by (auto simp: auth_effect_def authenticate_call_def Let_def)

lemma length_remove_nth: "i < length xs \<Longrightarrow> length (remove_nth i xs) = length xs - 1"
  by (simp add: remove_nth_def)

lemma commit_fields:
  "authentication (commit old s) = authentication s" "session_auth (commit old s) = session_auth s"
  "query_token (commit old s) = query_token s"
  by (simp_all add: commit_def Let_def session_frame)

lemma potential_deliver:
  assumes "i < length (inflight s)"
  shows "potential (deliver i r s) < potential s"
proof -
  define s0 where "s0 = s\<lparr>inflight := remove_nth i (inflight s)\<rparr>"
  define s1 where "s1 = authenticate_reply (inflight s ! i) r s0"
  have len0: "length (inflight s0) = length (inflight s) - 1"
    using assms by (simp add: s0_def length_remove_nth)
  have "potential (commit s0 s1) < potential s"
  proof (cases "query_token s1 = query_token s0")
    case True
    then have "potential (commit s0 s1) = potential s1"
      by (simp add: commit_def Let_def potential_def session_frame)
    also have "\<dots> < potential s"
      using assms len0 True by (simp add: potential_def s1_def session_frame s0_def)
    finally show ?thesis .
  next
    case False
    then have q1: "query_token s1 = None"
      by (simp add: s1_def authenticate_reply_query split: if_splits)
    with False have q0: "query_token s0 \<noteq> None" by metis
    have "potential (commit s0 s1) = length (inflight (auth_effect s1))"
      using False q1
      by (simp add: commit_def Let_def potential_def session_frame)
    also have "\<dots> \<le> length (inflight s1) + 1"
      using auth_effect_inflight_length [of s1] q1 by simp
    also have "\<dots> < potential s"
      using assms len0 q0
      by (auto simp: potential_def s1_def session_frame s0_def)
    finally show ?thesis .
  qed
  then show ?thesis using assms by (simp add: deliver_def s0_def s1_def Let_def)
qed

text \<open>Delivering the replies in issue order, as long as requests are outstanding.
  Its termination is the decrease of \<open>potential\<close> by every reply.\<close>

function drain :: "(token \<Rightarrow> bool) \<Rightarrow> session_state \<Rightarrow> session_state" where
  "drain valid s = (if inflight s = [] then s else drain valid (deliver_server valid 0 s))"
  by pat_completeness auto
termination
  by (relation "measure (\<lambda>(valid, s). potential s)") (auto simp: deliver_server_def potential_deliver)

declare drain.simps [simp del]

lemma socket_effect_inv:
  "open_conns s = conns_of (socket_cleanup s) \<Longrightarrow> socket_inv (socket_effect s)"
  by (auto simp: socket_effect_def socket_inv_def conns_of_def Let_def split: option.splits)

lemma socket_inv_cong:
  "socket_inv old \<Longrightarrow> authentication s = authentication old \<Longrightarrow> socket s = socket old \<Longrightarrow>
   socket_cleanup s = socket_cleanup old \<Longrightarrow> open_conns s = open_conns old \<Longrightarrow> socket_inv s"
  by (simp add: socket_inv_def)

lemma commit_socket_inv:
  assumes inv: "socket_inv old" and "socket s = socket old" "socket_cleanup s = socket_cleanup old"
    "open_conns s = open_conns old"
  shows "socket_inv (commit old s)"
proof (cases "authentication s = authentication old")
  case True
  with assms show ?thesis
    by (auto simp: commit_def Let_def session_frame intro: socket_inv_cong [OF inv])
next
  case False
  have "open_conns old = conns_of (socket_cleanup old)" using inv by (simp add: socket_inv_def)
  with False assms show ?thesis
    by (auto simp: commit_def Let_def session_frame intro: socket_effect_inv)
qed

lemma session_step_socket_inv: "socket_inv s \<Longrightarrow> socket_inv (session_step s e)"
proof (cases e)
  case (RouteQuery q)
  assume "socket_inv s"
  with RouteQuery show ?thesis by (simp add: commit_socket_inv)
next
  case (Reply i r)
  assume inv: "socket_inv s"
  have "socket_inv (s\<lparr>inflight := remove_nth i (inflight s)\<rparr>)"
    using inv by (simp add: socket_inv_def)
  with Reply inv show ?thesis
    by (simp add: deliver_def Let_def commit_socket_inv session_frame)
qed

lemma session_mount_socket_inv: "socket_inv (session_mount stored)"
  by (simp add: session_mount_def socket_effect_inv session_frame conns_of_def)

lemma session_run_socket_inv: "socket_inv s \<Longrightarrow> socket_inv (session_run s es)"
  by (induction es arbitrary: s) (simp_all add: session_step_socket_inv)

lemma deliver_in_range:
  "i < length (inflight s) \<Longrightarrow>
   deliver i r s = commit (s\<lparr>inflight := remove_nth i (inflight s)\<rparr>)
     (authenticate_reply (inflight s ! i) r (s\<lparr>inflight := remove_nth i (inflight s)\<rparr>))"
  by (simp add: deliver_def Let_def)

lemma socket_inv_open:
  "socket_inv s \<Longrightarrow> length (open_conns s) \<le> 1 \<and> (open_conns s \<noteq> [] \<longleftrightarrow> authentication s = User)
     \<and> set (open_conns s) \<subseteq> set_option (socket s)"
  by (cases "socket_cleanup s") (auto simp: socket_inv_def conns_of_def)

lemma commit_socket_log:
  assumes "list_all (\<lambda>(c, a). Q a) (socket_log s)"
    and "authentication s = User \<Longrightarrow> Q (js_template (session_auth s))"
  shows "list_all (\<lambda>(c, a). Q a) (socket_log (commit old s))"
proof -
  have ae: "socket_log (auth_effect s) = socket_log s"
    by (simp add: auth_effect_def authenticate_call_def Let_def)
  have "list_all (\<lambda>(c, a). Q a) (socket_log (socket_effect t))"
    if "list_all (\<lambda>(c, a). Q a) (socket_log t)" "authentication t = authentication s"
       "session_auth t = session_auth s" for t
    using that assms(2) by (auto simp: socket_effect_def Let_def split: option.splits)
  then show ?thesis using assms(1) ae
    by (simp add: commit_def Let_def session_frame)
qed

lemma srv_inv_deliver:
  assumes inv: "srv_inv valid s" and r: "r = server_reply valid (inflight s ! i) \<or> r = FetchFailed \<or> r = JsonFailed"
  shows "srv_inv valid (deliver i r s)"
proof (cases "i < length (inflight s)")
  case True
  let ?s0 = "s\<lparr>inflight := remove_nth i (inflight s)\<rparr>"
  let ?s1 = "authenticate_reply (inflight s ! i) r ?s0"
  have log1: "socket_log ?s1 = socket_log s"
    by (simp add: authenticate_reply_def router_replace_def split: login_reply.splits)
  have user1: "authentication ?s1 = User \<Longrightarrow> session_auth ?s1 = Some (inflight s ! i) \<and> valid (inflight s ! i)"
    using r by (auto simp: authenticate_reply_def router_replace_def server_reply_def split: if_splits)
  have "list_all (\<lambda>(c, a). valid a) (socket_log (commit ?s0 ?s1))"
    using inv log1 user1 by (intro commit_socket_log) (auto simp: srv_inv_def)
  moreover have "authentication (commit ?s0 ?s1) = User \<longrightarrow>
                   (\<exists>t. session_auth (commit ?s0 ?s1) = Some t \<and> valid t)"
    using user1 by (simp add: commit_fields)
  ultimately show ?thesis using True by (simp add: deliver_in_range srv_inv_def)
next
  case False
  with inv show ?thesis by (simp add: deliver_def)
qed

lemma socket_effect_guest_socket:
  "authentication s = Guest \<Longrightarrow> socket (socket_effect s) = socket s"
  by (simp add: socket_effect_def Let_def split: option.splits)

subsection \<open>Properties of authentication and the socket\<close>

text \<open>C11 (invariant). In every state reachable from the mount, whatever the stored
  token, the route changes and the order of the login replies: at most one socket is
  open, one is open exactly when the user is authenticated, and the open one is the
  socket the context provides.\<close>

theorem at_most_one_socket:
  "length (open_conns (session_run (session_mount stored) es)) \<le> 1
   \<and> (open_conns (session_run (session_mount stored) es) \<noteq> []
        \<longleftrightarrow> authentication (session_run (session_mount stored) es) = User)
   \<and> set (open_conns (session_run (session_mount stored) es))
        \<subseteq> set_option (socket (session_run (session_mount stored) es))"
proof -
  have "socket_inv (session_run (session_mount stored) es)"
    by (rule session_run_socket_inv [OF session_mount_socket_inv])
  then show ?thesis by (rule socket_inv_open)
qed

text \<open>C12 (functional). A login reply whose \<^verbatim>\<open>statusCode\<close> is not 401 authenticates
  the user with the token that request sent, stores it in session storage, and clears the
  token from the URL.\<close>

theorem login_reply_success:
  "i < length (inflight s) \<Longrightarrow> sc \<noteq> Some 401 \<Longrightarrow>
   authentication (deliver i (StatusCode sc) s) = User
   \<and> session_auth (deliver i (StatusCode sc) s) = Some (inflight s ! i)
   \<and> query_token (deliver i (StatusCode sc) s) = None"
  by (simp add: deliver_in_range commit_fields authenticate_reply_def router_replace_def)

theorem login_reply_success_witness:
  "authentication (deliver 0 (StatusCode (Some 200)) (session_mount (Some ''tok''))) = User
   \<and> session_auth (deliver 0 (StatusCode (Some 200)) (session_mount (Some ''tok''))) = Some ''tok''
   \<and> query_token (deliver 0 (StatusCode (Some 200)) (session_mount (Some ''tok''))) = None"
proof -
  have "inflight (session_mount (Some ''tok'')) = [''tok'']"
    by (simp add: session_mount_def auth_effect_def authenticate_call_def socket_effect_def)
  with login_reply_success [of 0 "session_mount (Some ''tok'')" "Some 200"] show ?thesis by simp
qed

text \<open>C13 (error). The failure branches of \<^verbatim>\<open>authenticate\<close>: a 401 makes the user a
  guest and removes the stored token; a network error or an unreadable body makes the user
  a guest but keeps the stored token (and, for the network error, the token in the
  URL).\<close>

theorem login_reply_failures:
  assumes "i < length (inflight s)"
  shows "authentication (deliver i (StatusCode (Some 401)) s) = Guest
         \<and> session_auth (deliver i (StatusCode (Some 401)) s) = None
         \<and> authentication (deliver i FetchFailed s) = Guest
         \<and> session_auth (deliver i FetchFailed s) = session_auth s
         \<and> query_token (deliver i FetchFailed s) = query_token s
         \<and> authentication (deliver i JsonFailed s) = Guest
         \<and> session_auth (deliver i JsonFailed s) = session_auth s"
  using assms
  by (simp add: deliver_in_range commit_fields authenticate_reply_def router_replace_def)

theorem login_reply_failures_witness:
  "authentication (deliver 0 FetchFailed (session_mount (Some ''tok''))) = Guest
   \<and> session_auth (deliver 0 FetchFailed (session_mount (Some ''tok''))) = Some ''tok''"
proof -
  have m: "inflight (session_mount (Some ''tok'')) = [''tok'']"
          "session_auth (session_mount (Some ''tok'')) = Some ''tok''"
    by (simp_all add: session_mount_def auth_effect_def authenticate_call_def socket_effect_def)
  from login_reply_failures [of 0 "session_mount (Some ''tok'')"] m show ?thesis by simp
qed

text \<open>C14 (termination). The cascade of login requests is finite whatever order the
  replies arrive in: a feasible schedule of replies is never longer than the potential of
  the state it starts from (each reply lowers it, though a reply may re-run the effect
  that issues requests).\<close>

theorem reply_schedule_bounded:
  "sched_ok valid s is \<Longrightarrow> length is \<le> potential s"
proof (induction "is" arbitrary: s)
  case Nil
  then show ?case by simp
next
  case (Cons i "is")
  then have "i < length (inflight s)" "sched_ok valid (deliver_server valid i s) is" by simp_all
  then have "length is \<le> potential (deliver_server valid i s)" using Cons.IH by blast
  moreover have "potential (deliver_server valid i s) < potential s"
    using \<open>i < length (inflight s)\<close> by (simp add: deliver_server_def potential_deliver)
  ultimately show ?case by simp
qed

theorem reply_schedule_bounded_witness:
  "length [2, 2, 0, 0 :: nat]
     \<le> potential (session_step (session_mount (Some ''old'')) (RouteQuery (Some ''new'')))"
proof -
  have "sched_ok (\<lambda>t. t = ''new'')
          (session_step (session_mount (Some ''old'')) (RouteQuery (Some ''new''))) [2, 2, 0, 0]"
    by code_simp
  then show ?thesis by (rule reply_schedule_bounded)
qed

lemmas session_eval_defs =
  session_mount_def auth_effect_def authenticate_call_def socket_effect_def commit_def
  deliver_server_def deliver_def server_reply_def authenticate_reply_def router_replace_def
  remove_nth_def Let_def drain.simps

text \<open>C15 (safety, finding). The outcome of a login depends on the order of the replies.
  Take any server verdict, a token \<open>old\<close> it rejects in session storage and a token
  \<open>new\<close> it accepts in the link the user follows. The effect authenticates the stored
  token and, when the query arrives, both tokens again: three requests. If the two replies
  for \<open>new\<close> come first, the user is logged in with \<open>new\<close>; the later 401 for
  \<open>old\<close> then logs the user out and removes \<open>new\<close> from storage
  (\<^verbatim>\<open>sessionStorage.removeItem\<close> does not check which token failed), with the query
  gone and nothing left in flight to repair it. (In issue order the user ends logged in:
  C17.)\<close>

theorem reply_order_decides_login:
  assumes "\<not> valid old" and "valid new" and "old \<noteq> []" and "new \<noteq> []"
  shows "sched_ok valid (session_step (session_mount (Some old)) (RouteQuery (Some new))) [2, 2, 0, 0]
   \<and> authentication (run_schedule valid
        (session_step (session_mount (Some old)) (RouteQuery (Some new))) [2]) = User
   \<and> session_auth (run_schedule valid
        (session_step (session_mount (Some old)) (RouteQuery (Some new))) [2]) = Some new
   \<and> authentication (run_schedule valid
        (session_step (session_mount (Some old)) (RouteQuery (Some new))) [2, 2, 0, 0]) = Guest
   \<and> session_auth (run_schedule valid
        (session_step (session_mount (Some old)) (RouteQuery (Some new))) [2, 2, 0, 0]) = None
   \<and> query_token (run_schedule valid
        (session_step (session_mount (Some old)) (RouteQuery (Some new))) [2, 2, 0, 0]) = None
   \<and> inflight (run_schedule valid
        (session_step (session_mount (Some old)) (RouteQuery (Some new))) [2, 2, 0, 0]) = []"
  using assms by (simp add: session_eval_defs)

theorem reply_order_decides_login_witness:
  "sched_ok (\<lambda>t. t = ''new'')
     (session_step (session_mount (Some ''old'')) (RouteQuery (Some ''new''))) [2, 2, 0, 0]
   \<and> authentication (run_schedule (\<lambda>t. t = ''new'')
        (session_step (session_mount (Some ''old'')) (RouteQuery (Some ''new''))) [2, 2, 0, 0])
        = Guest
   \<and> session_auth (run_schedule (\<lambda>t. t = ''new'')
        (session_step (session_mount (Some ''old'')) (RouteQuery (Some ''new''))) [2, 2, 0, 0])
        = None"
  using reply_order_decides_login [of "\<lambda>t. t = ''new''" "''old''" "''new''"] by simp

text \<open>C16 (safety, finding). Logging out does not clear the context's socket: when a
  401 reply turns an authenticated user into a guest, the effect's cleanup closes the
  socket but \<^verbatim>\<open>socket\<close> state still holds it, so \<^verbatim>\<open>SocketContext\<close> keeps
  providing a closed socket to whatever the page still renders.\<close>

theorem logout_keeps_closed_socket:
  assumes inv: "socket_inv s" and user: "authentication s = User"
    and i: "i < length (inflight s)"
  shows "authentication (deliver i (StatusCode (Some 401)) s) = Guest
         \<and> socket (deliver i (StatusCode (Some 401)) s) = socket s \<and> socket s \<noteq> None
         \<and> open_conns (deliver i (StatusCode (Some 401)) s) = []"
proof -
  let ?s' = "deliver i (StatusCode (Some 401)) s"
  have guest: "authentication ?s' = Guest"
    using i by (simp add: deliver_in_range commit_fields authenticate_reply_def router_replace_def)
  have "socket ?s' = socket s"
    using i user
    by (simp add: deliver_in_range commit_def Let_def authenticate_reply_def router_replace_def
                  socket_effect_guest_socket session_frame)
  moreover have "socket s \<noteq> None"
    using inv user by (auto simp: socket_inv_def)
  moreover have "socket_inv ?s'"
    using session_step_socket_inv [OF inv, of "Reply i (StatusCode (Some 401))"] by simp
  then have "open_conns ?s' = []"
    using guest socket_inv_open by fastforce
  ultimately show ?thesis using guest by simp
qed

theorem logout_keeps_closed_socket_witness:
  "authentication (deliver 1 (StatusCode (Some 401))
      (session_run (session_mount (Some ''t'')) [RouteQuery (Some ''u''), Reply 0 (StatusCode (Some 200))]))
     = Guest
   \<and> socket (deliver 1 (StatusCode (Some 401))
      (session_run (session_mount (Some ''t'')) [RouteQuery (Some ''u''), Reply 0 (StatusCode (Some 200))]))
     = Some 0
   \<and> open_conns (deliver 1 (StatusCode (Some 401))
      (session_run (session_mount (Some ''t'')) [RouteQuery (Some ''u''), Reply 0 (StatusCode (Some 200))]))
     = []"
proof -
  let ?w = "session_run (session_mount (Some ''t'')) [RouteQuery (Some ''u''), Reply 0 (StatusCode (Some 200))]"
  have inv: "socket_inv ?w" by (rule session_run_socket_inv [OF session_mount_socket_inv])
  have user: "authentication ?w = User" by code_simp
  have i: "1 < length (inflight ?w)" by code_simp
  have sock: "socket ?w = Some 0" by code_simp
  from logout_keeps_closed_socket [OF inv user i] sock show ?thesis by simp
qed



text \<open>C32 (safety). Against a server with a fixed verdict, whatever the route changes,
  the order of the answers and the network failures, every socket the shell ever opened
  carried a token the server accepted, and an authenticated user's stored token is one
  the server accepts.\<close>

theorem sockets_only_with_accepted_tokens:
  "srv_reachable valid s \<Longrightarrow>
   list_all (\<lambda>(c, a). valid a) (socket_log s)
   \<and> (authentication s = User \<longrightarrow> (\<exists>t. session_auth s = Some t \<and> valid t))"
proof (induction rule: srv_reachable.induct)
  case (mount stored)
  then show ?case
    by (simp add: session_mount_def socket_effect_def auth_effect_def authenticate_call_def Let_def)
next
  case (route s q)
  then have "srv_inv valid s" by (simp add: srv_inv_def)
  then have "list_all (\<lambda>(c, a). valid a) (socket_log (commit s (s\<lparr>query_token := q\<rparr>)))"
    by (intro commit_socket_log) (auto simp: srv_inv_def)
  with route show ?case by (simp add: commit_fields)
next
  case (answer s i)
  then have "srv_inv valid (deliver i (server_reply valid (inflight s ! i)) s)"
    by (intro srv_inv_deliver) (simp_all add: srv_inv_def)
  then show ?case using answer.IH by (simp add: deliver_server_def srv_inv_def)
next
  case (failure s r i)
  then have "srv_inv valid (deliver i r s)"
    by (intro srv_inv_deliver) (auto simp: srv_inv_def)
  then show ?case by (simp add: srv_inv_def)
qed

theorem sockets_only_with_accepted_tokens_witness:
  "list_all (\<lambda>(c, a). a = ''t'') (socket_log (deliver_server (\<lambda>x. x = ''t'') 0 (session_mount (Some ''t''))))
   \<and> socket_log (deliver_server (\<lambda>x. x = ''t'') 0 (session_mount (Some ''t''))) = [(0, ''t'')]"
proof -
  have "srv_reachable (\<lambda>x. x = ''t'') (deliver_server (\<lambda>x. x = ''t'') 0 (session_mount (Some ''t'')))"
    by (rule srv_reachable.answer [OF srv_reachable.mount])
  then have "list_all (\<lambda>(c, a). a = ''t'')
               (socket_log (deliver_server (\<lambda>x. x = ''t'') 0 (session_mount (Some ''t''))))"
    using sockets_only_with_accepted_tokens by blast
  moreover have "socket_log (deliver_server (\<lambda>x. x = ''t'') 0 (session_mount (Some ''t''))) = [(0, ''t'')]"
    by code_simp
  ultimately show ?thesis by blast
qed

end
