(* ===== verification/MailForm.thy ===== *)
theory MailForm
  imports Prelude
begin

text \<open>
  The registration form, \<^verbatim>\<open>src/components/MailSubmission/MailSubmission.tsx\<close>.
  \<open>mail_state\<close> holds the React state (\<^verbatim>\<open>loading\<close>, \<^verbatim>\<open>helpText\<close>), the
  react-hook-form field \<^verbatim>\<open>email\<close> with its error and its submitted flag, the
  \<^verbatim>\<open>POST /user/register\<close> requests in flight (by the email they carry) and the
  Google sign-in popups opened and not completed.

  The yup schema \<^verbatim>\<open>string().required().email()\<close> is \<open>email_schema\<close>; yup's
  e-mail pattern is a library regular expression, so it is a parameter \<open>is_email\<close> of
  every operation that validates, and the lemmas hold for any such pattern. The
  handlers are \<open>handle_submit\<close> (react-hook-form's \<^verbatim>\<open>handleSubmit\<close> with the
  resolver, then \<^verbatim>\<open>onSubmit\<close> up to its \<^verbatim>\<open>await\<close>), \<open>register_reply\<close> (the rest
  of \<^verbatim>\<open>onSubmit\<close>), \<open>google_reply\<close> (\<^verbatim>\<open>onSuccess\<close> of \<^verbatim>\<open>useGoogleLogin\<close>) and
  \<open>type_email\<close> (the registered input, re-validated on change once the form was
  submitted, react-hook-form's default \<^verbatim>\<open>reValidateMode\<close>). Both buttons are
  disabled while \<^verbatim>\<open>loading\<close> (\<^verbatim>\<open>isLoading\<close>).
\<close>

record mail_state =
  mail_loading :: bool
  helpText :: string
  email_value :: string
  email_error :: "string option"
  submitted :: bool
  register_inflight :: "string list"
  google_popups :: nat

definition mail_init :: mail_state where
  "mail_init =
     \<lparr>mail_loading = False, helpText = [], email_value = [], email_error = None,
      submitted = False, register_inflight = [], google_popups = 0\<rparr>"

definition email_schema :: "(string \<Rightarrow> bool) \<Rightarrow> string \<Rightarrow> string option" where
  "email_schema is_email v =
     (if v = [] then Some ''email is a required field''
      else if \<not> is_email v then Some ''email must be a valid email''
      else None)"

definition type_email :: "(string \<Rightarrow> bool) \<Rightarrow> string \<Rightarrow> mail_state \<Rightarrow> mail_state" where
  "type_email is_email v s =
     s\<lparr>email_value := v,
       email_error := (if submitted s then email_schema is_email v else email_error s)\<rparr>"

definition handle_submit :: "(string \<Rightarrow> bool) \<Rightarrow> mail_state \<Rightarrow> mail_state" where
  "handle_submit is_email s =
     (case email_schema is_email (email_value s) of
        Some err \<Rightarrow> s\<lparr>submitted := True, email_error := Some err\<rparr>
      | None \<Rightarrow> s\<lparr>submitted := True, email_error := None, mail_loading := True,
                  register_inflight := register_inflight s @ [email_value s]\<rparr>)"

definition register_reply :: "int settled \<Rightarrow> mail_state \<Rightarrow> mail_state" where
  "register_reply r s =
     (case r of
        Resolved status \<Rightarrow>
          (if status = 400
           then s\<lparr>mail_loading := False, helpText := ''Your email haven't registered yet!''\<rparr>
           else s\<lparr>mail_loading := False, email_value := [],
                   helpText := ''Check your mail box!''\<rparr>)
      | Rejected \<Rightarrow> s\<lparr>mail_loading := False, helpText := ''Try again later!''\<rparr>)"

definition google_reply :: "string settled \<Rightarrow> mail_state \<Rightarrow> mail_state" where
  "google_reply r s =
     (case r of
        Resolved data_email \<Rightarrow> s\<lparr>email_value := data_email, helpText := ''Submit email to login''\<rparr>
      | Rejected \<Rightarrow> s\<lparr>helpText := ''Try again later!''\<rparr>)"

datatype mail_event =
    TypeEmail string
  | SubmitEmail
  | RegisterDone "int settled"
  | GoogleClick
  | GoogleDone "string settled"

fun mail_step :: "(string \<Rightarrow> bool) \<Rightarrow> mail_state \<Rightarrow> mail_event \<Rightarrow> mail_state" where
  "mail_step is_email s (TypeEmail v) = type_email is_email v s"
| "mail_step is_email s SubmitEmail =
     (if mail_loading s then s else handle_submit is_email s)"
| "mail_step is_email s (RegisterDone r) =
     (case register_inflight s of
        [] \<Rightarrow> s
      | _ # rest \<Rightarrow> register_reply r (s\<lparr>register_inflight := rest\<rparr>))"
| "mail_step is_email s GoogleClick =
     (if mail_loading s then s else s\<lparr>google_popups := Suc (google_popups s)\<rparr>)"
| "mail_step is_email s (GoogleDone r) =
     (case google_popups s of
        0 \<Rightarrow> s
      | Suc n \<Rightarrow> google_reply r (s\<lparr>google_popups := n\<rparr>))"

fun mail_run :: "(string \<Rightarrow> bool) \<Rightarrow> mail_state \<Rightarrow> mail_event list \<Rightarrow> mail_state" where
  "mail_run is_email s [] = s"
| "mail_run is_email s (e # es) = mail_run is_email (mail_step is_email s e) es"

text \<open>The text under the input: \<^verbatim>\<open>errors.email?.message || helpText\<close>.\<close>

definition shown_text :: "mail_state \<Rightarrow> string" where
  "shown_text s = js_or (email_error s) (helpText s)"

definition help_texts :: "string list" where
  "help_texts =
     [[], ''Your email haven't registered yet!'', ''Check your mail box!'', ''Try again later!'',
      ''Submit email to login'']"

definition mail_inv :: "mail_state \<Rightarrow> bool" where
  "mail_inv s \<longleftrightarrow>
     (mail_loading s \<longleftrightarrow> register_inflight s \<noteq> []) \<and> length (register_inflight s) \<le> 1
     \<and> helpText s \<in> set help_texts"

subsection \<open>Lemmas\<close>

lemma mail_step_inv: "mail_inv s \<Longrightarrow> mail_inv (mail_step is_email s e)"
proof (cases e)
  case SubmitEmail
  assume inv: "mail_inv s"
  then show ?thesis using SubmitEmail
    by (auto simp: mail_inv_def handle_submit_def split: option.splits)
next
  case (RegisterDone r)
  assume inv: "mail_inv s"
  then show ?thesis using RegisterDone
    by (auto simp: mail_inv_def register_reply_def help_texts_def
             split: list.splits settled.splits)
next
  case (GoogleDone r)
  assume inv: "mail_inv s"
  then show ?thesis using GoogleDone
    by (auto simp: mail_inv_def google_reply_def help_texts_def split: nat.splits settled.splits)
qed (auto simp: mail_inv_def type_email_def)

subsection \<open>Properties of the registration form\<close>

text \<open>C18 (invariant). From the initial form, for any sequence of user actions and
  replies: \<^verbatim>\<open>loading\<close> is true exactly while a registration request is in flight,
  there is never more than one (the disabled button prevents a second submission), and
  the help text is one of the component's fixed messages.\<close>

theorem mail_run_inv: "mail_inv (mail_run is_email mail_init es)"
proof -
  have "mail_inv s \<Longrightarrow> mail_inv (mail_run is_email s es)" for s
    by (induction es arbitrary: s) (simp_all add: mail_step_inv)
  moreover have "mail_inv mail_init" by (simp add: mail_inv_def mail_init_def help_texts_def)
  ultimately show ?thesis .
qed

text \<open>C19 (functional, error). Submitting the form when it is enabled posts exactly the
  typed email when the schema accepts it and nothing otherwise; the field's error becomes
  the schema's message, and \<^verbatim>\<open>loading\<close> is set only when a request is sent.\<close>

theorem submit_posts_valid_email:
  assumes "\<not> mail_loading s"
  shows "register_inflight (mail_step is_email s SubmitEmail)
           = register_inflight s @ (if email_schema is_email (email_value s) = None
                                     then [email_value s] else [])
         \<and> email_error (mail_step is_email s SubmitEmail) = email_schema is_email (email_value s)
         \<and> mail_loading (mail_step is_email s SubmitEmail)
           = (email_value s \<noteq> [] \<and> is_email (email_value s))"
  using assms by (simp add: handle_submit_def email_schema_def)

theorem submit_posts_valid_email_witness:
  "register_inflight (mail_step (\<lambda>v. CHR ''@'' \<in> set v) (mail_init\<lparr>email_value := ''a@b.c''\<rparr>) SubmitEmail)
     = [''a@b.c'']
   \<and> email_error (mail_step (\<lambda>v. CHR ''@'' \<in> set v) (mail_init\<lparr>email_value := []\<rparr>) SubmitEmail)
     = Some ''email is a required field''"
proof -
  have "\<not> mail_loading (mail_init\<lparr>email_value := ''a@b.c''\<rparr>)"
       "\<not> mail_loading (mail_init\<lparr>email_value := []\<rparr>)"
    by (simp_all add: mail_init_def)
  from submit_posts_valid_email [OF this(1), of "\<lambda>v. CHR ''@'' \<in> set v"]
       submit_posts_valid_email [OF this(2), of "\<lambda>v. CHR ''@'' \<in> set v"]
  show ?thesis by (simp add: mail_init_def email_schema_def)
qed

text \<open>C20 (functional, finding). The reply to a registration request: \<^verbatim>\<open>loading\<close>
  ends on every branch; status 400 says the email is not registered and keeps the field;
  every other status, 500 included, resets the field and says to check the mail box;
  a rejected request says to try again later.\<close>

theorem register_reply_branches:
  assumes "register_inflight s \<noteq> []"
  shows "\<not> mail_loading (mail_step is_email s (RegisterDone r))
         \<and> helpText (mail_step is_email s (RegisterDone r))
             = (case r of Resolved st \<Rightarrow> if st = 400 then ''Your email haven't registered yet!''
                                             else ''Check your mail box!''
                        | Rejected \<Rightarrow> ''Try again later!'')
         \<and> email_value (mail_step is_email s (RegisterDone r))
             = (case r of Resolved st \<Rightarrow> if st = 400 then email_value s else []
                        | Rejected \<Rightarrow> email_value s)"
  using assms by (auto simp: register_reply_def split: list.splits settled.splits)

theorem register_reply_branches_witness:
  "helpText (mail_step (\<lambda>v. True) (mail_init\<lparr>register_inflight := [''a@b.c''], mail_loading := True\<rparr>)
      (RegisterDone (Resolved 500))) = ''Check your mail box!''"
proof -
  have "register_inflight (mail_init\<lparr>register_inflight := [''a@b.c''], mail_loading := True\<rparr>) \<noteq> []"
    by simp
  from register_reply_branches [OF this, of "\<lambda>v. True" "Resolved 500"] show ?thesis by simp
qed

text \<open>C21 (safety, finding). After a failed validation, a successful Google sign-in fills
  the field and sets the help text \<^verbatim>\<open>Submit email to login\<close>, but
  \<^verbatim>\<open>setValue\<close> does not re-validate: the stale error message is still shown in its
  place.\<close>

theorem google_help_hidden_by_stale_error:
  assumes "email_error s = Some err" and "err \<noteq> []" and "0 < google_popups s"
  shows "email_value (mail_step is_email s (GoogleDone (Resolved e))) = e
         \<and> helpText (mail_step is_email s (GoogleDone (Resolved e))) = ''Submit email to login''
         \<and> shown_text (mail_step is_email s (GoogleDone (Resolved e))) = err"
  using assms by (auto simp: google_reply_def shown_text_def js_simps split: nat.splits)

theorem google_help_hidden_by_stale_error_witness:
  "shown_text (mail_run (\<lambda>v. CHR ''@'' \<in> set v) mail_init
      [SubmitEmail, GoogleClick, GoogleDone (Resolved ''a@b.c'')]) = ''email is a required field''"
proof -
  let ?s = "mail_run (\<lambda>v. CHR ''@'' \<in> set v) mail_init [SubmitEmail, GoogleClick]"
  have "email_error ?s = Some ''email is a required field''" "0 < google_popups ?s"
    by (simp_all add: mail_init_def handle_submit_def email_schema_def)
  from google_help_hidden_by_stale_error [OF this(1) _ this(2)]
  show ?thesis by simp
qed

text \<open>C22 (refinement). The Google flow feeds the registration: once a sign-in popup
  completes with an address the schema accepts, submitting the form posts that address.\<close>

theorem google_then_submit_posts_email:
  assumes "\<not> mail_loading s" and "0 < google_popups s" and "e \<noteq> []" and "is_email e"
  shows "register_inflight (mail_step is_email (mail_step is_email s (GoogleDone (Resolved e))) SubmitEmail)
           = register_inflight s @ [e]"
  using assms
  by (auto simp: google_reply_def handle_submit_def email_schema_def split: nat.splits)

theorem google_then_submit_posts_email_witness:
  "register_inflight (mail_step (\<lambda>v. CHR ''@'' \<in> set v)
      (mail_step (\<lambda>v. CHR ''@'' \<in> set v) (mail_init\<lparr>google_popups := 1\<rparr>) (GoogleDone (Resolved ''a@b.c'')))
      SubmitEmail) = [''a@b.c'']"
proof -
  have "\<not> mail_loading (mail_init\<lparr>google_popups := 1\<rparr>)" "0 < google_popups (mail_init\<lparr>google_popups := 1\<rparr>)"
    by (simp_all add: mail_init_def)
  from google_then_submit_posts_email [OF this, of "''a@b.c''" "\<lambda>v. CHR ''@'' \<in> set v"]
  show ?thesis by (simp add: mail_init_def)
qed

end
