(* ===== verification/Spec2Isabelle.thy ===== *)
theory Spec2Isabelle
  imports Theme Chat Session MailForm
begin

text \<open>
  \<^bold>\<open>A verification development of the nesxt-chat widget.\<close>

  The repository is a Next.js application of about 520 lines: an application shell
  \<^verbatim>\<open>src/pages/_app.tsx\<close> that authenticates the visitor, opens a socket.io connection
  for authenticated users and keeps a light/dark theme; a global chat room
  \<^verbatim>\<open>src/components/ChatRoom/ChatRoom.tsx\<close> that loads the history over HTTP, echoes
  the user's messages optimistically, emits them on the shell's socket and replaces its
  list with every broadcast; a registration form
  \<^verbatim>\<open>src/components/MailSubmission/MailSubmission.tsx\<close> (email or Google sign-in);
  and themed buttons under \<^verbatim>\<open>src/components/Themed/\<close>. The components interact
  through two React contexts: \<^verbatim>\<open>SocketContext\<close> (the shell's socket, read by the chat
  room) and \<^verbatim>\<open>ThemeContext\<close> (read by the themed buttons). Every server is outside
  the repository: its replies are inputs of the model, and so is their order.

  \<^bold>\<open>Modelling conventions.\<close> Each component's React state is a \<^theory_text>\<open>record\<close>; each
  handler and effect body is one definition taking and returning that record; an
  \<^verbatim>\<open>async\<close> handler is split at its \<^verbatim>\<open>await\<close>s, the continuation taking the settled
  promise (\<open>'a settled\<close>: \<open>Resolved\<close> or \<open>Rejected\<close>, the \<^verbatim>\<open>catch\<close> branch)
  as input; React's re-run of an effect when a dependency changes is written out
  (\<open>set_theme\<close>, \<open>Session.commit\<close>). Browser storage is a field of the record
  (\<open>string option\<close>, \<^verbatim>\<open>null\<close> being \<open>None\<close>). JavaScript's \<^verbatim>\<open>indexOf\<close>,
  \<^verbatim>\<open>substring\<close>, truthiness, \<^verbatim>\<open>||\<close> and template literals are modelled in
  \<open>Prelude\<close>. Numbers the code computes with (scroll offsets, message counts, status
  codes) are \<open>int\<close>: they stay far below 2 to the 53rd, where JavaScript's doubles are
  exact (a fractional scroll offset is not modelled). Every definition is executable; no
  fuel is needed: the one loop-like behaviour, the cascade of login requests, is a
  \<^theory_text>\<open>function\<close> (\<open>Session.drain\<close>) whose termination is proved by a measure.

  \<^bold>\<open>Theories.\<close>
  \<^item> \<open>Prelude\<close>: the JavaScript built-ins and generic list lemmas (collection
    \<open>js_simps\<close>).
  \<^item> \<open>Theme\<close> (\<^verbatim>\<open>_app.tsx\<close> lines 13-27, 44-46, 95-113; \<^verbatim>\<open>ThemedButton\<close>,
    \<^verbatim>\<open>ThemedIconButton\<close>): \<open>theme_state\<close>, \<open>toggleChangeTheme\<close>, the persisting
    and loading effects, \<open>theme_mount\<close>, the variants and the global palette. Lemmas:
    the theme and local storage stay in sync from the mount on (C6), a reload restores
    the theme (C7), a toggle always flips the theme and its stored name and toggling
    twice is the identity (C8), a corrupt stored value falls back to light (C9),
    buttons and palette agree (C10).
  \<^item> \<open>Chat\<close> (\<^verbatim>\<open>ChatRoom.tsx\<close>): \<open>chat_state\<close>, \<open>onSubmit\<close>,
    \<open>handleScrollView\<close>, \<open>receive_message\<close>, \<open>fetch_start\<close>/\<open>fetch_complete\<close>,
    the dispatcher \<open>chat_step\<close> and the view \<open>chat_view\<close>. Lemmas: pending echoes
    stay a sender-less suffix (C1), a submission adds one pending row and one emission
    (C2, C26), the required rule (C3), a broadcast replaces the list (C4), a failed
    initial fetch leaves the spinner for ever (C5), the scroll buttons (C23), the shown
    sender name (C24), the last list to arrive wins (C25). The abstract specification
    \<open>chat_spec\<close> (confirmed messages and pending texts, step \<open>spec_step\<close>) is
    refined by \<open>chat_step\<close> through \<open>abstract_chat\<close> (C31).
  \<^item> \<open>Session\<close> (\<^verbatim>\<open>_app.tsx\<close> lines 29-93): \<open>session_state\<close>, \<open>auth_effect\<close>,
    \<open>authenticate_reply\<close>, \<open>socket_effect\<close>, \<open>commit\<close>, \<open>deliver\<close> (the
    \<open>i\<close>-th outstanding login request settles), \<open>session_step\<close>; a server with a
    fixed verdict on tokens (\<open>server_reply\<close>) and schedules of replies
    (\<open>run_schedule\<close>, \<open>drain\<close>). Lemmas: at most one open socket, open exactly for
    an authenticated user (C11), the success and failure branches of a login (C12,
    C13), every order of replies ends (C14), for any server verdict a stale stored token
    answered last undoes a valid link login (C15), logout leaves a closed socket in the
    context (C16), a link with a valid token
    logs the visitor in when replies come in issue order (C17). Against a server with a fixed
    verdict, the reachable states (\<open>srv_reachable\<close>, an \<^theory_text>\<open>inductive\<close> predicate)
    only ever open sockets with accepted tokens, by rule induction (C32).
  \<^item> \<open>MailForm\<close> (\<^verbatim>\<open>MailSubmission.tsx\<close>): \<open>mail_state\<close>, the yup schema
    \<open>email_schema\<close> over a parameter \<open>is_email\<close> (yup's pattern), \<open>handle_submit\<close>,
    \<open>register_reply\<close>, \<open>google_reply\<close>, \<open>mail_step\<close>, \<open>shown_text\<close>. Lemmas:
    loading, requests in flight and help texts stay consistent (C18), submission posts
    exactly a valid email (C19), the reply branches (C20), a stale validation error
    hides the Google help text (C21), the Google flow feeds the registration (C22).
  \<^item> This theory composes the shell and the chat room (\<open>app_state\<close>,
    \<open>room_commit\<close>, \<open>app_step\<close>): the socket the session provides is the one the
    chat room emits on and listens to. The page between them
    (the Next.js page component, not part of the sources) receives
    \<^verbatim>\<open>authentication\<close> and decides whether \<^verbatim>\<open>ChatRoom\<close> is rendered; it is the
    parameter \<open>page :: auth \<Rightarrow> bool\<close>, and every lemma holds for every such page. The room
    mounts (fetch started, listener registered) when the page starts rendering it and
    unmounts when it stops; its listeners outlive it (no cleanup). Lemmas: the component
    invariants hold together in every reachable state, the room is mounted exactly when
    the page renders it and a mounted room listens on the context socket (C27); a
    message leaves on an open socket exactly when the user is authenticated (C28); an
    authenticated user's messages leave on the open socket and its broadcasts reach the
    room (C29); only the context socket of an authenticated user delivers broadcasts
    (C30); the themed buttons follow the persisted theme (C33).

  \<^bold>\<open>Plan.\<close> Done in this order, most important behaviour first: the chat room
  (handlers, view, invariant, abstract specification), the session and socket lifecycle
  (with the interleaving of login replies), the theme, the registration form, their
  composition, with the page as a parameter. Still to do: reachable states of the
  composed application as an \<^theory_text>\<open>inductive\<close> predicate with its
  \<^theory_text>\<open>inductive_cases\<close>; a simulation of the session by an abstract guest/user
  machine; the registration form inside the application (it depends on the absent page
  as the room does).

  \<^bold>\<open>Assumptions.\<close> \<^verbatim>\<open>formRef.current.reset()\<close> is a native form reset; the model
  takes it to clear the react-hook-form value of the field (\<open>Chat.onSubmit\<close>,
  \<open>MailForm.register_reply\<close>). \<^verbatim>\<open>router.replace\<close> takes effect in the step of the
  login reply that calls it, and react-hook-form's validation with \<^verbatim>\<open>setLoading(true)\<close>
  is one step. The router's query is empty at the mount (Next.js fills it after
  hydration). Chat events reach the mounted room; a fetch started by a room that was
  unmounted since may settle on the new one, an over-approximation of React, which drops
  it.

  \<^bold>\<open>Not modelled.\<close> \<^verbatim>\<open>ThemedInput\<close> (a pass-through of props), the Chakra layout
  and styles, the \<^verbatim>\<open>moment\<close> time format, DOM scrolling (\<^verbatim>\<open>scrollIntoView\<close>),
  focus handling, the page component (a parameter, see above), the
  socket.io transport (sockets are identities, open or closed), the
  Google popup, and the servers, whose replies are inputs.
\<close>

text \<open>
  The chat room's effect on \<^verbatim>\<open>[socket]\<close> registers its \<^verbatim>\<open>receive_message\<close>
  listener on the socket of the context (\<^verbatim>\<open>socket?.on\<close>), with no cleanup.
\<close>

definition chat_socket_effect :: "conn option \<Rightarrow> conn list \<Rightarrow> conn list" where
  "chat_socket_effect sock listeners = (case sock of None \<Rightarrow> listeners | Some c \<Rightarrow> listeners @ [c])"

text \<open>
  The page the shell renders (\<^verbatim>\<open><Component authentication={authentication}>\<close>) is
  not part of the sources. It is a parameter \<open>page\<close> of the composition: \<open>page au\<close>
  tells whether the page renders \<^verbatim>\<open>ChatRoom\<close> when it receives the authentication
  \<open>au\<close>. \<open>app_chat\<close> is the state of the mounted room, \<open>None\<close> while the page does
  not render it; \<open>listeners\<close> are the sockets a room registered its listener on (they
  outlive the room: the effect has no cleanup); \<open>sent\<close> the messages emitted.
\<close>

record app_state =
  app_session :: session_state
  app_theme :: theme_state
  app_chat :: "chat_state option"
  listeners :: "conn list"
  sent :: "(conn \<times> string) list"

datatype app_event =
    SessionEv session_event
  | ThemeEv theme_event
  | ChatEv chat_event
  | Broadcast conn "Message list"

text \<open>First render: \<^verbatim>\<open>authentication\<close> is \<^verbatim>\<open>"guest"\<close> and \<^verbatim>\<open>socket\<close> is
  \<^verbatim>\<open>null\<close>. A room rendered then runs its effects before the shell's (children
  first): it starts its fetch and registers no listener.\<close>

definition app_mount :: "(auth \<Rightarrow> bool) \<Rightarrow> token option \<Rightarrow> string option \<Rightarrow> app_state" where
  "app_mount page stored_token local_theme =
     \<lparr>app_session = session_mount stored_token, app_theme = theme_mount local_theme,
      app_chat = (if page Guest then Some (fetch_start chat_init) else None),
      listeners = [], sent = []\<rparr>"

text \<open>
  After a session step to \<open>s'\<close>: the page unmounts the room if it no longer renders it;
  a room it starts rendering mounts with the socket of that render (the old one), then
  the shell's socket effect may call \<^verbatim>\<open>setSocket\<close> and the room's effect on
  \<^verbatim>\<open>[socket]\<close> registers on the new socket; a room that stays mounted registers on
  the new socket when it changed.
\<close>

definition room_commit :: "(auth \<Rightarrow> bool) \<Rightarrow> session_state \<Rightarrow> app_state \<Rightarrow> app_state" where
  "room_commit page s' a =
     (let old = socket (app_session a); new = socket s'
      in if \<not> page (authentication s') then a\<lparr>app_session := s', app_chat := None\<rparr>
         else (case app_chat a of
                 None \<Rightarrow>
                   a\<lparr>app_session := s', app_chat := Some (fetch_start chat_init),
                     listeners := (let l = chat_socket_effect old (listeners a)
                                   in if new = old then l else chat_socket_effect new l)\<rparr>
               | Some _ \<Rightarrow>
                   a\<lparr>app_session := s',
                     listeners := (if new = old then listeners a
                                   else chat_socket_effect new (listeners a))\<rparr>))"

fun app_step :: "(auth \<Rightarrow> bool) \<Rightarrow> app_state \<Rightarrow> app_event \<Rightarrow> app_state" where
  "app_step page a (SessionEv e) = room_commit page (session_step (app_session a) e) a"
| "app_step page a (ThemeEv e) = a\<lparr>app_theme := theme_step (app_theme a) e\<rparr>"
| "app_step page a (ChatEv e) =
     (case app_chat a of
        None \<Rightarrow> a
      | Some r \<Rightarrow>
          (let (r', out) = chat_step (socket (app_session a)) r e
           in a\<lparr>app_chat := Some r', sent := sent a @ (case out of None \<Rightarrow> [] | Some x \<Rightarrow> [x])\<rparr>))"
| "app_step page a (Broadcast c d) =
     (case app_chat a of
        Some r \<Rightarrow>
          (if c \<in> set (open_conns (app_session a)) \<and> c \<in> set (listeners a)
           then a\<lparr>app_chat := Some (receive_message d r)\<rparr> else a)
      | None \<Rightarrow> a)"

fun app_run :: "(auth \<Rightarrow> bool) \<Rightarrow> app_state \<Rightarrow> app_event list \<Rightarrow> app_state" where
  "app_run page a [] = a"
| "app_run page a (e # es) = app_run page (app_step page a e) es"

definition room_inv :: "conn option \<Rightarrow> conn list \<Rightarrow> chat_state option \<Rightarrow> bool" where
  "room_inv sock ls room =
     (case room of None \<Rightarrow> True | Some r \<Rightarrow> chat_inv r \<and> set_option sock \<subseteq> set ls)"

definition app_inv :: "(auth \<Rightarrow> bool) \<Rightarrow> app_state \<Rightarrow> bool" where
  "app_inv page a \<longleftrightarrow>
     socket_inv (app_session a) \<and> theme_synced (app_theme a)
     \<and> (app_chat a \<noteq> None \<longleftrightarrow> page (authentication (app_session a)))
     \<and> room_inv (socket (app_session a)) (listeners a) (app_chat a)"

subsection \<open>Lemmas\<close>

lemma session_mount_socket: "socket (session_mount stored) = None"
  by (simp add: session_mount_def socket_effect_def auth_effect_frame Let_def)

lemma session_mount_guest: "authentication (session_mount stored) = Guest"
  by (simp add: session_mount_def socket_effect_def auth_effect_frame Let_def)

lemma chat_inv_fetch_start: "chat_inv (fetch_start chat_init)"
  by (simp add: chat_inv_def fetch_start_def chat_init_def pending_suffix_def)

lemma app_mount_inv: "app_inv page (app_mount page stored_token local_theme)"
  by (simp add: app_inv_def room_inv_def app_mount_def session_mount_socket_inv theme_mount_synced
                session_mount_socket session_mount_guest chat_inv_fetch_start)

lemma chat_socket_effect_set: "set (chat_socket_effect sock l) = set l \<union> set_option sock"
  by (cases sock) (auto simp: chat_socket_effect_def)

lemma room_commit_inv:
  assumes "app_inv page a" and "socket_inv s'"
  shows "app_inv page (room_commit page s' a)"
  using assms
  by (auto simp: app_inv_def room_inv_def room_commit_def chat_socket_effect_set
                 chat_inv_fetch_start Let_def split: option.splits)

lemma chat_inv_receive: "chat_inv s \<Longrightarrow> chat_inv (receive_message d s)"
  using chat_step_inv [of s None "Receive d"] by simp

lemma app_step_inv: "app_inv page a \<Longrightarrow> app_inv page (app_step page a e)"
proof (cases e)
  case (SessionEv se)
  assume inv: "app_inv page a"
  have "socket_inv (session_step (app_session a) se)"
    using inv by (simp add: app_inv_def session_step_socket_inv)
  with inv SessionEv show ?thesis by (simp add: room_commit_inv)
next
  case (ThemeEv te)
  assume "app_inv page a"
  with ThemeEv show ?thesis by (simp add: app_inv_def theme_step_synced)
next
  case (ChatEv ce)
  assume inv: "app_inv page a"
  show ?thesis
  proof (cases "app_chat a")
    case (Some r)
    have "chat_inv (fst (chat_step (socket (app_session a)) r ce))"
      using inv Some by (simp add: app_inv_def room_inv_def chat_step_inv)
    with inv ChatEv Some show ?thesis
      by (cases "chat_step (socket (app_session a)) r ce") (simp add: app_inv_def room_inv_def)
  qed (use inv ChatEv in simp)
next
  case (Broadcast c d)
  assume "app_inv page a"
  with Broadcast show ?thesis
    by (auto simp: app_inv_def room_inv_def chat_inv_receive split: option.splits)
qed

lemma app_run_inv_from: "app_inv page a \<Longrightarrow> app_inv page (app_run page a es)"
  by (induction es arbitrary: a) (simp_all add: app_step_inv)


lemma app_inv_user_open:
  "app_inv page a \<Longrightarrow> authentication (app_session a) = User \<Longrightarrow> app_chat a = Some r \<Longrightarrow>
   \<exists>c. socket (app_session a) = Some c \<and> open_conns (app_session a) = [c] \<and> c \<in> set (listeners a)"
  by (auto simp: app_inv_def room_inv_def socket_inv_def conns_of_def)


subsection \<open>Properties of the composed application\<close>

text \<open>C27 (invariant). Whatever the page renders for each authentication, in every state
  reachable from the mount the component invariants hold together (one open socket
  exactly for an authenticated user, the theme mirrored in local storage, pending echoes
  a sender-less suffix), the room is mounted exactly when the page renders it, and a
  mounted room listens on the socket the context provides.\<close>

theorem app_run_inv: "app_inv page (app_run page (app_mount page stored_token local_theme) es)"
proof -
  have "app_inv page (app_mount page stored_token local_theme)" by (rule app_mount_inv)
  then show ?thesis by (rule app_run_inv_from)
qed



text \<open>C29 (functional). For an authenticated user the two components agree on one
  socket: a submitted message leaves on the open socket of the context, and a broadcast
  on that socket replaces the room's list.\<close>

theorem user_socket_roundtrip:
  assumes "app_inv page a" and "authentication (app_session a) = User" and "socket (app_session a) = Some c"
    and "app_chat a = Some r" and "chat_input r \<noteq> []"
  shows "sent (app_step page a (ChatEv (Submit now))) = sent a @ [(c, chat_input r)]
         \<and> c \<in> set (open_conns (app_session (app_step page a (ChatEv (Submit now)))))
         \<and> app_chat (app_step page a (Broadcast c d)) = Some (receive_message d r)"
proof -
  have "open_conns (app_session a) = [c] \<and> c \<in> set (listeners a)"
    using app_inv_user_open [OF assms(1,2,4)] assms(3) by auto
  then show ?thesis using assms(3-5) by (simp add: onSubmit_cases)
qed

theorem user_socket_roundtrip_witness:
  "sent (app_step (\<lambda>au. au = User) (app_run (\<lambda>au. au = User) (app_mount (\<lambda>au. au = User) (Some ''t'') None)
          [SessionEv (Reply 0 (StatusCode (Some 200))), ChatEv (TypeChat ''hi'')]) (ChatEv (Submit 2)))
     = [(0, ''hi'')]"
proof -
  let ?p = "\<lambda>au. au = User"
  let ?a = "app_run ?p (app_mount ?p (Some ''t'') None)
              [SessionEv (Reply 0 (StatusCode (Some 200))), ChatEv (TypeChat ''hi'')]"
  have inv: "app_inv ?p ?a" by (rule app_run_inv_from [OF app_mount_inv])
  have user: "authentication (app_session ?a) = User" by code_simp
  have sock: "socket (app_session ?a) = Some 0" by code_simp
  have room: "app_chat ?a = Some \<lparr>messages = [], room_loading = True,
      scrollView = \<lparr>sv_top = False, sv_bottom = False\<rparr>, chat_input = ''hi''\<rparr>" by code_simp
  have none: "sent ?a = []" by code_simp
  from user_socket_roundtrip [OF inv user sock room, of 2 "[]"] none show ?thesis by simp
qed



text \<open>C33 (functional). In every state reachable from the mount, the themed buttons
  (which read \<^verbatim>\<open>ThemeContext\<close>) are outlined exactly when the preference persisted in
  local storage is dark, so a reload shows the same buttons.\<close>

theorem themed_buttons_follow_stored_theme:
  "(ThemedButton_variant (theme (app_theme (app_run page (app_mount page stored_token local_theme) es))) None
      = Outline
    \<longleftrightarrow> stored_theme (app_theme (app_run page (app_mount page stored_token local_theme) es)) = Some ''dark'')
   \<and> (ThemedIconButton_variant (theme (app_theme (app_run page (app_mount page stored_token local_theme) es))) None
      = Outline
    \<longleftrightarrow> stored_theme (app_theme (app_run page (app_mount page stored_token local_theme) es)) = Some ''dark'')"
proof -
  have "theme_synced (app_theme (app_run page (app_mount page stored_token local_theme) es))"
    using app_run_inv_from [OF app_mount_inv] by (simp add: app_inv_def)
  then show ?thesis
    by (cases "theme (app_theme (app_run page (app_mount page stored_token local_theme) es))")
       (auto simp: theme_synced_def ThemedButton_variant_def ThemedIconButton_variant_def
             elim: theme_str.elims)
qed

end
